theory Spec2Isabelle
  imports Complex_Main
begin

section \<open>Strings and numbers as the converter uses them\<close>

text \<open>
  A JavaScript string is modelled as a \<^typ>\<open>string\<close>: a list of 8-bit code units, read as
  the Latin-1 range of the code units of the source's strings. Numbers that the code only
  counts, compares and prints (node ids, line numbers, byte sizes, HTTP statuses, second
  stamps) are integers.
\<close>

definition digitChar :: "nat \<Rightarrow> char" where
  "digitChar d = ''0123456789'' ! d"

text \<open>Decimal rendering of a non-negative integer, as a template literal prints it.\<close>

fun showNat :: "nat \<Rightarrow> string" where
  "showNat n = (if n < 10 then [digitChar n] else showNat (n div 10) @ [digitChar (n mod 10)])"

declare showNat.simps [simp del]

text \<open>\<^verbatim>\<open>Array.prototype.join\<close> on a list of strings.\<close>

fun joinWith :: "string \<Rightarrow> string list \<Rightarrow> string" where
  "joinWith sep [] = []"
| "joinWith sep [x] = x"
| "joinWith sep (x # y # ys) = x @ sep @ joinWith sep (y # ys)"

text \<open>\<^verbatim>\<open>String.prototype.split\<close> with a one-character separator: never an empty list.\<close>

fun splitOn :: "char \<Rightarrow> string \<Rightarrow> string list" where
  "splitOn c [] = [[]]"
| "splitOn c (x # xs) =
     (if x = c then [] # splitOn c xs
      else (case splitOn c xs of [] \<Rightarrow> [[x]] | p # ps \<Rightarrow> (x # p) # ps))"

text \<open>\<^verbatim>\<open>parts.slice(-2)\<close>: the last two elements, or all of them when there are fewer.\<close>

definition sliceLast2 :: "'a list \<Rightarrow> 'a list" where
  "sliceLast2 parts = drop (length parts - 2) parts"

text \<open>
  White space as \<^verbatim>\<open>trim\<close> and the regular expression class \<^verbatim>\<open>\s\<close> see it, within
  the 8-bit range: tab, line feed, vertical tab, form feed, carriage return, space and the
  no-break space.
\<close>

definition isWhitespace :: "char \<Rightarrow> bool" where
  "isWhitespace c = (of_char c \<in> {9, 10, 11, 12, 13, 32, 160 :: nat})"

definition trim :: "string \<Rightarrow> string" where
  "trim s = rev (dropWhile isWhitespace (rev (dropWhile isWhitespace s)))"

definition startsWith :: "string \<Rightarrow> string \<Rightarrow> bool" where
  "startsWith s p = (take (length p) s = p)"

section \<open>Frame model\<close>

record CdpCallFrame =
  functionName :: string
  url :: string
  lineNumber :: int

record CdpNode =
  nodeId :: int
  callFrame :: CdpCallFrame
  children :: "int list option"

record CdpProfile =
  nodes :: "CdpNode list"
  startTime :: real
  endTime :: real
  samples :: "int list option"

datatype HeapProfileNode =
  HeapNode (heapFrame: CdpCallFrame) (selfSize: int) (heapChildren: "HeapProfileNode list")

definition shouldSkipFrame :: "string \<Rightarrow> string \<Rightarrow> bool" where
  "shouldSkipFrame fname u =
     (if fname = ''(root)'' \<or> fname = ''(idle)'' then True
      else if u = ''node:inspector'' then True
      else False)"

definition isRoot :: "string \<Rightarrow> bool" where
  "isRoot fname = (fname = ''(root)'')"

text \<open>
  \<^verbatim>\<open>frameLabel\<close>. An empty url is the falsy one (\<^verbatim>\<open>!callFrame.url\<close>). The cut to the
  last two path segments sits inside the test for the \<^verbatim>\<open>file://\<close> prefix.
\<close>

definition frameLabel :: "CdpCallFrame \<Rightarrow> string" where
  "frameLabel cf =
     (let name = (if trim (functionName cf) = [] then ''(anonymous)'' else trim (functionName cf))
      in if url cf = [] then name
         else
           let shortUrl =
                 (if startsWith (url cf) ''file://''
                  then joinWith ''/'' (sliceLast2 (splitOn CHR ''/'' (drop 7 (url cf))))
                  else url cf)
           in if lineNumber cf \<ge> 0
              then name @ '' ('' @ shortUrl @ '':'' @ showNat (nat (lineNumber cf)) @ '')''
              else name @ '' ('' @ shortUrl @ '')'')"

section \<open>CPU conversion\<close>

text \<open>Step 1, \<^verbatim>\<open>nodeMap\<close>: a later node with the same id replaces an earlier one.\<close>

definition nodeMap :: "CdpNode list \<Rightarrow> (int \<rightharpoonup> CdpNode)" where
  "nodeMap ns = foldl (\<lambda>m n. m(nodeId n \<mapsto> n)) Map.empty ns"

text \<open>Step 2, \<^verbatim>\<open>parentMap\<close>: the inverse of the children edges, the last writer winning.\<close>

definition parentMap :: "CdpNode list \<Rightarrow> (int \<rightharpoonup> int)" where
  "parentMap ns =
     foldl (\<lambda>m n. case children n of
                     None \<Rightarrow> m
                   | Some cs \<Rightarrow> foldl (\<lambda>m' childId. m'(childId \<mapsto> nodeId n)) m cs)
           Map.empty ns"

definition MAX_DEPTH :: nat where
  "MAX_DEPTH = 512"

text \<open>
  The \<^verbatim>\<open>while\<close> loop of one sample. The loop state is \<^verbatim>\<open>currentId\<close> (absent when the
  parent map has no entry), \<^verbatim>\<open>depth\<close> and \<^verbatim>\<open>frames\<close>; the result is the state at exit.
\<close>

function walk :: "(int \<rightharpoonup> CdpNode) \<Rightarrow> (int \<rightharpoonup> int) \<Rightarrow> int option \<Rightarrow> nat \<Rightarrow> string list
                    \<Rightarrow> string list \<times> nat" where
  "walk nm pm currentId depth frames =
     (case currentId of
        None \<Rightarrow> (frames, depth)
      | Some c \<Rightarrow>
          if depth < MAX_DEPTH then
            (case nm c of
               None \<Rightarrow> (frames, depth)
             | Some node \<Rightarrow>
                 if isRoot (functionName (callFrame node)) then (frames, depth)
                 else walk nm pm (pm c) (Suc depth)
                        (if \<not> shouldSkipFrame (functionName (callFrame node)) (url (callFrame node))
                         then frames @ [frameLabel (callFrame node)]
                         else frames))
          else (frames, depth))"
  by pat_completeness auto
termination
  by (relation "measure (\<lambda>(nm, pm, c, depth, frames). MAX_DEPTH - depth)") auto

declare walk.simps [simp del]

text \<open>The frames of one sample after \<^verbatim>\<open>frames.reverse()\<close>.\<close>

definition sampleFrames :: "CdpNode list \<Rightarrow> int \<Rightarrow> string list" where
  "sampleFrames ns leafId = rev (fst (walk (nodeMap ns) (parentMap ns) (Some leafId) 0 []))"

text \<open>
  \<^verbatim>\<open>stackCounts\<close> is a \<^verbatim>\<open>Map\<close>, which keeps its keys in insertion order: an association
  list, a new key appended, a known key updated in place.
\<close>

fun bumpCount :: "(string \<times> nat) list \<Rightarrow> string \<Rightarrow> (string \<times> nat) list" where
  "bumpCount [] k = [(k, 1)]"
| "bumpCount ((k', c) # rest) k =
     (if k' = k then (k', c + 1) # rest else (k', c) # bumpCount rest k)"

definition countSample :: "CdpNode list \<Rightarrow> (string \<times> nat) list \<Rightarrow> int \<Rightarrow> (string \<times> nat) list" where
  "countSample ns counts leafId =
     (let frames = sampleFrames ns leafId
      in if frames = [] then counts else bumpCount counts (joinWith '';'' frames))"

definition stackCounts :: "CdpNode list \<Rightarrow> int list \<Rightarrow> (string \<times> nat) list" where
  "stackCounts ns ss = foldl (countSample ns) [] ss"

definition foldedLine :: "string \<times> nat \<Rightarrow> string" where
  "foldedLine e = fst e @ '' '' @ showNat (snd e)"

definition convertToFolded :: "CdpProfile \<Rightarrow> string" where
  "convertToFolded profile =
     (case samples profile of
        None \<Rightarrow> []
      | Some ss \<Rightarrow>
          if ss = [] then []
          else joinWith [CHR 0x0A] (map foldedLine (stackCounts (nodes profile) ss)))"

section \<open>Heap conversion\<close>

text \<open>
  The inner \<^verbatim>\<open>walk\<close> of \<^verbatim>\<open>convertHeapToFolded\<close>; the lines it pushes are returned
  in the order of the pushes.
\<close>

fun heapWalk :: "HeapProfileNode \<Rightarrow> string list \<Rightarrow> string list" where
  "heapWalk (HeapNode cf sz cs) frames =
     (let nextFrames =
            (if isRoot (functionName cf) \<or> shouldSkipFrame (functionName cf) (url cf)
             then frames
             else frames @ [frameLabel cf])
      in (if sz > 0 \<and> nextFrames \<noteq> []
          then [joinWith '';'' nextFrames @ '' '' @ showNat (nat sz)]
          else [])
         @ concat (map (\<lambda>child. heapWalk child nextFrames) cs))"

definition convertHeapToFolded :: "HeapProfileNode \<Rightarrow> string" where
  "convertHeapToFolded head = joinWith [CHR 0x0A] (heapWalk head [])"

section \<open>Sample rate\<close>

text \<open>
  A JavaScript number is an IEEE 754 binary64 value. A finite one is modelled by the real
  number it denotes, and an arithmetic operation by the exact operation followed by the
  rounding to the nearest binary64 value, a tie going to the even significand. The
  infinities (results of magnitude \<open>2 ^ 1024\<close> and more), NaN and the sign of zero are
  outside the model.
\<close>

text \<open>
  The binary exponent of a positive real: the \<open>e\<close> with \<open>2 ^ e \<le> x < 2 ^ (e + 1)\<close>, found by
  halving or doubling, at most \<open>fuel\<close> times. The exponents of the finite binary64 values
  lie between \<open>- 1074\<close> and 1023, so 1100 steps reach each of them that is not below the
  least normal exponent \<open>- 1022\<close>, under which the exponent is not needed.
\<close>

fun binaryExponent :: "nat \<Rightarrow> real \<Rightarrow> int" where
  "binaryExponent 0 x = 0"
| "binaryExponent (Suc fuel) x =
     (if 2 \<le> x then binaryExponent fuel (x / 2) + 1
      else if x < 1 then binaryExponent fuel (2 * x) - 1
      else 0)"

definition roundHalfEven :: "real \<Rightarrow> int" where
  "roundHalfEven m =
     (let f = \<lfloor>m\<rfloor>; r = m - of_int f
      in if r < 1 / 2 then f
         else if 1 / 2 < r then f + 1
         else if even f then f else f + 1)"

text \<open>
  Rounding to binary64: a significand of 53 bits, and below \<open>2 ^ - 1022\<close> the fixed spacing
  \<open>2 ^ - 1074\<close> of the subnormal values.
\<close>

definition toDouble :: "real \<Rightarrow> real" where
  "toDouble x =
     (if x = 0 then 0
      else
        let a = \<bar>x\<bar>;
            e = max (binaryExponent 1100 a) (- 1022);
            m = roundHalfEven (a * 2 powi (52 - e))
        in sgn x * (of_int m * 2 powi (e - 52)))"

text \<open>The operators \<^verbatim>\<open>-\<close>, \<^verbatim>\<open>/\<close> and \<^verbatim>\<open>*\<close> on numbers.\<close>

definition numSub :: "real \<Rightarrow> real \<Rightarrow> real" where
  "numSub a b = toDouble (a - b)"

definition numDiv :: "real \<Rightarrow> real \<Rightarrow> real" where
  "numDiv a b = toDouble (a / b)"

definition numMul :: "real \<Rightarrow> real \<Rightarrow> real" where
  "numMul a b = toDouble (a * b)"

text \<open>
  \<^verbatim>\<open>Math.round\<close>: the nearest integer, a tie going up. It is exact on the number it is
  given.
\<close>

definition mathRound :: "real \<Rightarrow> int" where
  "mathRound x = \<lfloor>x + 1 / 2\<rfloor>"

text \<open>
  \<^verbatim>\<open>calculateSampleRate\<close>. The length of the sample array is an integer, exact as a number;
  the difference, the quotient and the product are each rounded.
\<close>

definition calculateSampleRate :: "CdpProfile \<Rightarrow> int" where
  "calculateSampleRate profile =
     (case samples profile of
        None \<Rightarrow> 100
      | Some ss \<Rightarrow>
          if length ss = 0 then 100
          else
            let durationUs = numSub (endTime profile) (startTime profile)
            in if durationUs \<le> 0 then 100
               else mathRound (numMul (numDiv (real (length ss)) durationUs) 1000000))"

section \<open>Notions used to state the properties of the converter\<close>

text \<open>
  The nodes one sample's walk visits, leaf first: the chain of parent links from the leaf,
  cut before the root frame, at an id without a node, and after \<open>fuel\<close> nodes.
\<close>

fun chainUp :: "(int \<rightharpoonup> CdpNode) \<Rightarrow> (int \<rightharpoonup> int) \<Rightarrow> int option \<Rightarrow> nat \<Rightarrow> CdpNode list" where
  "chainUp nm pm currentId 0 = []"
| "chainUp nm pm currentId (Suc fuel) =
     (case currentId of
        None \<Rightarrow> []
      | Some c \<Rightarrow>
          (case nm c of
             None \<Rightarrow> []
           | Some node \<Rightarrow>
               if isRoot (functionName (callFrame node)) then []
               else node # chainUp nm pm (pm c) fuel))"

text \<open>A node whose frame is not skipped.\<close>

definition visibleNode :: "CdpNode \<Rightarrow> bool" where
  "visibleNode node = (\<not> shouldSkipFrame (functionName (callFrame node)) (url (callFrame node)))"

text \<open>
  Every node of a heap tree in the order of the traversal, each with the call frames on the
  way from the head down to it (itself included) and its self size.
\<close>

fun heapChains :: "HeapProfileNode \<Rightarrow> CdpCallFrame list \<Rightarrow> (CdpCallFrame list \<times> int) list" where
  "heapChains (HeapNode cf sz cs) ancestors =
     (ancestors @ [cf], sz) # concat (map (\<lambda>child. heapChains child (ancestors @ [cf])) cs)"

text \<open>A frame that advances the path: neither the root frame nor a skipped one.\<close>

definition visibleFrame :: "CdpCallFrame \<Rightarrow> bool" where
  "visibleFrame cf = (\<not> isRoot (functionName cf) \<and> \<not> shouldSkipFrame (functionName cf) (url cf))"

definition pathOf :: "CdpCallFrame list \<Rightarrow> string list" where
  "pathOf chain = map frameLabel (filter visibleFrame chain)"

definition heapLine :: "CdpCallFrame list \<times> int \<Rightarrow> string" where
  "heapLine e = joinWith '';'' (pathOf (fst e)) @ '' '' @ showNat (nat (snd e))"

definition emitsLine :: "CdpCallFrame list \<times> int \<Rightarrow> bool" where
  "emitsLine e = (snd e > 0 \<and> pathOf (fst e) \<noteq> [])"

subsection \<open>Concrete profiles\<close>

definition plainFrame :: "string \<Rightarrow> CdpCallFrame" where
  "plainFrame name = \<lparr>functionName = name, url = [], lineNumber = -1\<rparr>"


text \<open>A profile whose only sample names a node that is not there.\<close>

definition knownFuncProfile :: CdpProfile where
  "knownFuncProfile =
     \<lparr>nodes = [\<lparr>nodeId = 1, callFrame = \<lparr>functionName = ''(root)'', url = [], lineNumber = -1\<rparr>,
                 children = Some [2]\<rparr>,
               \<lparr>nodeId = 2, callFrame = \<lparr>functionName = ''knownFunc'', url = [], lineNumber = -1\<rparr>,
                 children = None\<rparr>],
      startTime = 0, endTime = 1000000, samples = Some [99]\<rparr>"

text \<open>
  A malformed profile: node 1 lists itself as its child, so its parent link is a cycle;
  beside it a well-formed pair \<open>(root) \<rightarrow> work\<close>.
\<close>

definition spinNode :: CdpNode where
  "spinNode = \<lparr>nodeId = 1, callFrame = plainFrame ''spin'', children = Some [1]\<rparr>"

definition cyclicProfile :: CdpProfile where
  "cyclicProfile =
     \<lparr>nodes = [spinNode,
               \<lparr>nodeId = 2, callFrame = plainFrame ''(root)'', children = Some [3]\<rparr>,
               \<lparr>nodeId = 3, callFrame = plainFrame ''work'', children = None\<rparr>],
      startTime = 0, endTime = 1000000, samples = Some [1, 3, 1]\<rparr>"

text \<open>The heap tree \<open>(root) \<rightarrow> parent \<rightarrow> (idle)\<close> with 512 bytes on the idle node.\<close>

definition idleUnderParent :: HeapProfileNode where
  "idleUnderParent =
     HeapNode (plainFrame ''(root)'') 0
       [HeapNode (plainFrame ''parent'') 0 [HeapNode (plainFrame ''(idle)'') 512 []]]"

text \<open>A heap tree without any self size.\<close>

definition allZeroHeap :: HeapProfileNode where
  "allZeroHeap =
     HeapNode (plainFrame ''(root)'') 0
       [HeapNode (plainFrame ''parent'') 0 [HeapNode (plainFrame ''leaf'') 0 []]]"

text \<open>A profile of \<open>n\<close> samples between two time stamps.\<close>

definition rateProfile :: "nat \<Rightarrow> real \<Rightarrow> real \<Rightarrow> CdpProfile" where
  "rateProfile n t0 t1 =
     \<lparr>nodes = [\<lparr>nodeId = 1, callFrame = plainFrame ''(root)'', children = None\<rparr>],
      startTime = t0, endTime = t1, samples = Some (replicate n 1)\<rparr>"

section \<open>Label encoding\<close>

text \<open>
  A label set is a \<^verbatim>\<open>Record<string, string>\<close>; \<^verbatim>\<open>Object.entries\<close> lists it in insertion
  order, so it is modelled by the list of its entries, the keys distinct.
\<close>

type_synonym Labels = "(string \<times> string) list"

text \<open>Writing one property: an existing key keeps its place, a new key goes last.\<close>

fun setLabel :: "Labels \<Rightarrow> string \<times> string \<Rightarrow> Labels" where
  "setLabel [] kv = [kv]"
| "setLabel ((k, v) # rest) kv =
     (if k = fst kv then (k, snd kv) # rest else (k, v) # setLabel rest kv)"

text \<open>The object spread \<^verbatim>\<open>{ ...savedLabels, ...extraLabels }\<close>.\<close>

definition spreadLabels :: "Labels \<Rightarrow> Labels \<Rightarrow> Labels" where
  "spreadLabels savedLabels extraLabels = foldl setLabel savedLabels extraLabels"

text \<open>\<^verbatim>\<open>k.replace(/[{}=,\s]/g, "_")\<close> and \<^verbatim>\<open>v.replace(/[{}=,]/g, "_")\<close>.\<close>

definition safeKey :: "string \<Rightarrow> string" where
  "safeKey k = map (\<lambda>c. if c \<in> set ''{}=,'' \<or> isWhitespace c then CHR ''_'' else c) k"

definition safeValue :: "string \<Rightarrow> string" where
  "safeValue v = map (\<lambda>c. if c \<in> set ''{}=,'' then CHR ''_'' else c) v"

text \<open>
  \<^verbatim>\<open>entries.sort(([a], [b]) => a.localeCompare(b))\<close>. The collation behind
  \<^verbatim>\<open>localeCompare\<close> belongs to the runtime, so the comparator is a parameter; the sort is
  the stable one, written as an insertion sort.
\<close>

fun insertEntry :: "(string \<Rightarrow> string \<Rightarrow> int) \<Rightarrow> string \<times> string \<Rightarrow> Labels \<Rightarrow> Labels" where
  "insertEntry localeCompare e [] = [e]"
| "insertEntry localeCompare e (x # xs) =
     (if localeCompare (fst e) (fst x) \<le> 0 then e # x # xs
      else x # insertEntry localeCompare e xs)"

definition sortEntries :: "(string \<Rightarrow> string \<Rightarrow> int) \<Rightarrow> Labels \<Rightarrow> Labels" where
  "sortEntries localeCompare entries = foldr (insertEntry localeCompare) entries []"

text \<open>\<^verbatim>\<open>encodePyroscopeName(appName, labels)\<close> of \<^verbatim>\<open>labels.ts\<close>: two parameters.\<close>

definition encodePyroscopeName :: "(string \<Rightarrow> string \<Rightarrow> int) \<Rightarrow> string \<Rightarrow> Labels \<Rightarrow> string" where
  "encodePyroscopeName localeCompare appName labels =
     (if length labels = 0 then appName @ ''.cpu''
      else
        let labelStr =
              joinWith '',''
                (map (\<lambda>(k, v). safeKey k @ ''='' @ safeValue v) (sortEntries localeCompare labels))
        in appName @ ''.cpu{'' @ labelStr @ ''}'')"

section \<open>Delivery\<close>

record ResolvedConfig =
  pyroscopeUrl :: string
  appName :: string
  sampleIntervalUs :: int
  pushIntervalMs :: int
  labels :: Labels
  authToken :: "string option"
  basicAuth :: "(string \<times> string) option"
  maxRetries :: int
  debug :: bool
  heapEnabled :: bool
  heapSamplingIntervalBytes :: int

text \<open>
  The ingest URL is kept in parts: the base and the six query parameters handed to
  \<^verbatim>\<open>URLSearchParams\<close>, whose percent-encoding is the runtime's.
\<close>

record IngestUrl =
  urlBase :: string
  qName :: string
  qFrom :: int
  qUntil :: int
  qSampleRate :: int
  qSpyName :: string
  qFormat :: string

text \<open>
  \<^verbatim>\<open>buildIngestUrl(from, until, sampleRate, type = "cpu")\<close>. The call
  \<^verbatim>\<open>encodePyroscopeName(this.config.appName, this.config.labels, type)\<close> passes three
  arguments to the function of two parameters above; the third is dropped by the call.
\<close>

definition buildIngestUrl ::
  "(string \<Rightarrow> string \<Rightarrow> int) \<Rightarrow> ResolvedConfig \<Rightarrow> int \<Rightarrow> int \<Rightarrow> int \<Rightarrow> string \<Rightarrow> IngestUrl" where
  "buildIngestUrl localeCompare cfg from until sampleRate type =
     (let name = encodePyroscopeName localeCompare (appName cfg) (labels cfg)
      in \<lparr>urlBase = pyroscopeUrl cfg @ ''/ingest'',
          qName = name, qFrom = from, qUntil = until, qSampleRate = sampleRate,
          qSpyName = ''nodespy'', qFormat = ''folded''\<rparr>)"

text \<open>The \<^verbatim>\<open>Authorization\<close> header, the base64 text of the basic form left unencoded.\<close>

datatype AuthHeader = Bearer string | Basic string string

definition buildAuthHeader :: "ResolvedConfig \<Rightarrow> AuthHeader option" where
  "buildAuthHeader cfg =
     (case authToken cfg of
        Some token \<Rightarrow> (if token \<noteq> [] then Some (Bearer token)
                       else (case basicAuth cfg of
                               Some (username, password) \<Rightarrow> Some (Basic username password)
                             | None \<Rightarrow> None))
      | None \<Rightarrow> (case basicAuth cfg of
                   Some (username, password) \<Rightarrow> Some (Basic username password)
                 | None \<Rightarrow> None))"

text \<open>One request of \<^verbatim>\<open>pushWithRetry\<close>; the body is the folded text before compression.\<close>

record PushRequest =
  reqUrl :: IngestUrl
  reqAuthorization :: "AuthHeader option"
  reqBody :: string

text \<open>
  What one \<^verbatim>\<open>fetch\<close> call can do: answer with a status and a body text (absent when
  reading it fails), reject with an \<^verbatim>\<open>Error\<close> of some message, or reject with a value
  that is not an \<^verbatim>\<open>Error\<close>, given by its \<^verbatim>\<open>String(...)\<close>.
\<close>

datatype FetchOutcome =
    Response nat "string option"
  | Rejected string
  | RejectedValue string

text \<open>\<^verbatim>\<open>response.ok\<close>.\<close>

definition responseOk :: "nat \<Rightarrow> bool" where
  "responseOk status = (200 \<le> status \<and> status \<le> 299)"

text \<open>The message of \<^verbatim>\<open>new Error(`HTTP ${response.status}: ${text}`)\<close>.\<close>

definition httpError :: "nat \<Rightarrow> string option \<Rightarrow> string" where
  "httpError status text =
     ''HTTP '' @ showNat status @ '': '' @ (case text of None \<Rightarrow> ''(unreadable)'' | Some t \<Rightarrow> t)"

definition backoffMs :: "nat \<Rightarrow> nat" where
  "backoffMs attempt = min (1000 * 2 ^ (attempt - 1)) 30000"

text \<open>
  The result of a run: the error thrown to the caller (by its message) or the normal return,
  the delays slept in order, and the number of \<^verbatim>\<open>fetch\<close> calls made.
\<close>

record PushResult =
  thrown :: "string option"
  sleeps :: "nat list"
  fetches :: nat

text \<open>
  The \<^verbatim>\<open>for\<close> loop of \<^verbatim>\<open>pushWithRetry\<close>. The outcome of the \<open>n\<close>-th \<^verbatim>\<open>fetch\<close> call is
  \<open>fetch n\<close>; each round makes one call. An error thrown inside the \<^verbatim>\<open>try\<close>, the one for
  a 4xx status included, lands in the \<^verbatim>\<open>catch\<close>, which rethrows an \<^verbatim>\<open>Error\<close> whose
  message starts with \<^verbatim>\<open>HTTP 4\<close> and records anything else as \<^verbatim>\<open>lastError\<close>.
\<close>

function pushLoop ::
  "int \<Rightarrow> (nat \<Rightarrow> FetchOutcome) \<Rightarrow> nat \<Rightarrow> string option \<Rightarrow> nat list \<Rightarrow> PushResult" where
  "pushLoop maxR fetch attempt lastError slept =
     (if int attempt \<le> maxR then
        let slept' = (if attempt > 0 then slept @ [backoffMs attempt] else slept)
        in (case fetch attempt of
              Response status text \<Rightarrow>
                if responseOk status
                then \<lparr>thrown = None, sleeps = slept', fetches = Suc attempt\<rparr>
                else
                  let err = httpError status text
                  in if status \<ge> 400 \<and> status < 500
                     then (if startsWith err ''HTTP 4''
                           then \<lparr>thrown = Some err, sleeps = slept', fetches = Suc attempt\<rparr>
                           else pushLoop maxR fetch (Suc attempt) (Some err) slept')
                     else pushLoop maxR fetch (Suc attempt) (Some err) slept'
            | Rejected message \<Rightarrow>
                if startsWith message ''HTTP 4''
                then \<lparr>thrown = Some message, sleeps = slept', fetches = Suc attempt\<rparr>
                else pushLoop maxR fetch (Suc attempt) (Some message) slept'
            | RejectedValue shown \<Rightarrow>
                pushLoop maxR fetch (Suc attempt) (Some shown) slept')
      else \<lparr>thrown = lastError, sleeps = slept, fetches = attempt\<rparr>)"
  by pat_completeness auto
termination
  by (relation "measure (\<lambda>(maxR, fetch, attempt, lastError, slept). nat (maxR + 1 - int attempt))")
     auto

declare pushLoop.simps [simp del]

text \<open>
  \<^verbatim>\<open>pushWithRetry\<close>: the request is built once, before the loop, from the configuration as
  it is at the call; \<open>fetch\<close> is given the request.
\<close>

definition pushRequest ::
  "(string \<Rightarrow> string \<Rightarrow> int) \<Rightarrow> ResolvedConfig \<Rightarrow> string \<Rightarrow> int \<Rightarrow> int \<Rightarrow> int \<Rightarrow> string
     \<Rightarrow> PushRequest" where
  "pushRequest localeCompare cfg folded from until sampleRate type =
     \<lparr>reqUrl = buildIngestUrl localeCompare cfg from until sampleRate type,
      reqAuthorization = buildAuthHeader cfg,
      reqBody = folded\<rparr>"

definition pushWithRetry ::
  "(string \<Rightarrow> string \<Rightarrow> int) \<Rightarrow> ResolvedConfig \<Rightarrow> (PushRequest \<Rightarrow> nat \<Rightarrow> FetchOutcome)
     \<Rightarrow> string \<Rightarrow> int \<Rightarrow> int \<Rightarrow> int \<Rightarrow> string \<Rightarrow> PushResult" where
  "pushWithRetry localeCompare cfg fetch folded from until sampleRate type =
     pushLoop (maxRetries cfg)
       (fetch (pushRequest localeCompare cfg folded from until sampleRate type)) 0 None []"

section \<open>Notions used to state the retry policy\<close>

text \<open>
  An outcome after which the loop goes on to the next attempt: a response that is neither
  2xx nor 4xx, a rejection with an \<^verbatim>\<open>Error\<close> whose message does not start with
  \<^verbatim>\<open>HTTP 4\<close>, or a rejection with any other value.
\<close>

definition retryable :: "FetchOutcome \<Rightarrow> bool" where
  "retryable outcome =
     (case outcome of
        Response status text \<Rightarrow> \<not> responseOk status \<and> \<not> (400 \<le> status \<and> status < 500)
      | Rejected message \<Rightarrow> \<not> startsWith message ''HTTP 4''
      | RejectedValue shown \<Rightarrow> True)"

text \<open>The message of the error an outcome leaves behind.\<close>

definition errorOf :: "FetchOutcome \<Rightarrow> string" where
  "errorOf outcome =
     (case outcome of
        Response status text \<Rightarrow> httpError status text
      | Rejected message \<Rightarrow> message
      | RejectedValue shown \<Rightarrow> shown)"

subsection \<open>Concrete servers\<close>

definition busyThenOk :: "nat \<Rightarrow> FetchOutcome" where
  "busyThenOk n = (if n < 2 then Response 503 (Some ''busy'') else Response 200 (Some ''ok''))"

definition alwaysBusy :: "nat \<Rightarrow> FetchOutcome" where
  "alwaysBusy n = Response 503 (Some ''busy'')"

definition notFound :: "nat \<Rightarrow> FetchOutcome" where
  "notFound n = Response 404 None"

text \<open>A transport failure whose message happens to start with \<^verbatim>\<open>HTTP 4\<close>.\<close>

definition proxyRefusal :: "nat \<Rightarrow> FetchOutcome" where
  "proxyRefusal n = Rejected ''HTTP 407 from proxy''"

section \<open>The profiler\<close>

text \<open>
  The object \<^verbatim>\<open>BunPyroscope\<close> and the world it acts on are one record. The fields of the
  class keep their names. \<open>trace\<close> is the list of the effects so far, in order;
  \<open>nextTimer\<close> is the handle the next \<^verbatim>\<open>setTimeout\<close> returns; \<open>pendingHeap\<close> holds the
  calls of \<^verbatim>\<open>flushHeapWindow\<close> that are suspended at an \<^verbatim>\<open>await\<close>.
\<close>

datatype Session = Session

datatype LogLevel = Debug | Warn | Error

datatype Event =
    Connect
  | Disconnect
  | Post string "int option"
  | SetTimeout nat int
  | ClearTimeout nat
  | Push PushRequest
  | InstallSignalHandlers
  | Log LogLevel string

text \<open>
  A suspended \<^verbatim>\<open>flushHeapWindow\<close>: after its \<^verbatim>\<open>HeapProfiler.stopSampling\<close> was posted (at
  the given position of the trace), or after the restart of the sampling was posted, the
  profile in hand.
\<close>

datatype HeapStage =
    AwaitingStop nat
  | AwaitingRestart HeapProfileNode nat

record HeapJob =
  jobWindowStart :: int
  jobWindowEnd :: int
  jobStage :: HeapStage

record Profiler =
  config :: ResolvedConfig
  session :: "Session option"
  pushTimer :: "nat option"
  running :: bool
  windowStart :: int
  signalHandlersInstalled :: bool
  trace :: "Event list"
  nextTimer :: nat
  pendingHeap :: "HeapJob list"

text \<open>
  What the surroundings decide. A call of \<^verbatim>\<open>session.post\<close> made when the trace has \<open>n\<close>
  entries resolves iff \<open>postOk n method\<close>; a resolving \<^verbatim>\<open>Profiler.stop\<close> carries
  \<open>cpuProfileAt n\<close> and a resolving \<^verbatim>\<open>HeapProfiler.stopSampling\<close> carries
  \<open>heapProfileAt n\<close>. \<open>nowSeconds n\<close> is \<^verbatim>\<open>Math.floor(Date.now() / 1000)\<close> at that point,
  and \<open>localeCompare\<close> is the collation of the runtime.
\<close>

record Env =
  postOk :: "nat \<Rightarrow> string \<Rightarrow> bool"
  cpuProfileAt :: "nat \<Rightarrow> CdpProfile"
  heapProfileAt :: "nat \<Rightarrow> HeapProfileNode"
  nowSeconds :: "nat \<Rightarrow> int"
  localeCompare :: "string \<Rightarrow> string \<Rightarrow> int"

text \<open>The outcome of the function handed to \<^verbatim>\<open>tag\<close>: a value, or an exception.\<close>

datatype 'a Completion = Returned 'a | Threw string

definition emit :: "Event \<Rightarrow> Profiler \<Rightarrow> Profiler" where
  "emit e p = p\<lparr>trace := trace p @ [e]\<rparr>"

definition logMsg :: "LogLevel \<Rightarrow> string \<Rightarrow> Profiler \<Rightarrow> Profiler" where
  "logMsg level msg p =
     (if level = Debug \<and> \<not> debug (config p) then p else emit (Log level msg) p)"

text \<open>\<^verbatim>\<open>await this.session.post(method, params)\<close>: the call is recorded, and whether it
  resolves is returned.\<close>

definition post :: "Env \<Rightarrow> string \<Rightarrow> int option \<Rightarrow> Profiler \<Rightarrow> Profiler \<times> bool" where
  "post env method param p = (emit (Post method param) p, postOk env (length (trace p)) method)"

definition clearPushTimer :: "Profiler \<Rightarrow> Profiler" where
  "clearPushTimer p =
     (case pushTimer p of
        None \<Rightarrow> p
      | Some h \<Rightarrow> (emit (ClearTimeout h) p)\<lparr>pushTimer := None\<rparr>)"

definition installSignalHandlers :: "Profiler \<Rightarrow> Profiler" where
  "installSignalHandlers p =
     (if signalHandlersInstalled p then p
      else emit InstallSignalHandlers (p\<lparr>signalHandlersInstalled := True\<rparr>))"

definition scheduleNextWindow :: "Profiler \<Rightarrow> Profiler" where
  "scheduleNextWindow p =
     (if \<not> running p then p
      else (emit (SetTimeout (nextTimer p) (pushIntervalMs (config p))) p)
             \<lparr>pushTimer := Some (nextTimer p), nextTimer := Suc (nextTimer p)\<rparr>)"

definition beginWindow :: "Env \<Rightarrow> bool \<Rightarrow> Profiler \<Rightarrow> Profiler" where
  "beginWindow env schedule p =
     (if session p = None \<or> \<not> running p then p
      else
        let p1 = p\<lparr>windowStart := nowSeconds env (length (trace p))\<rparr>
        in (case post env ''Profiler.start'' None p1 of
              (p2, ok) \<Rightarrow>
                if \<not> ok
                then (let p3 = logMsg Error ''Profiler.start failed'' p2
                      in if schedule then scheduleNextWindow p3 else p3)
                else (if schedule then scheduleNextWindow p2 else p2)))"

text \<open>
  The part of \<^verbatim>\<open>flushHeapWindow\<close> up to its first \<^verbatim>\<open>await\<close>. The caller does not await
  the call, so the rest runs later, from \<open>pendingHeap\<close>.
\<close>

definition flushHeapWindow :: "Env \<Rightarrow> int \<Rightarrow> int \<Rightarrow> Profiler \<Rightarrow> Profiler" where
  "flushHeapWindow env wStart wEnd p =
     (if session p = None then p
      else (emit (Post ''HeapProfiler.stopSampling'' None) p)
             \<lparr>pendingHeap := pendingHeap p
                  @ [\<lparr>jobWindowStart = wStart, jobWindowEnd = wEnd,
                       jobStage = AwaitingStop (length (trace p))\<rparr>]\<rparr>)"

text \<open>
  The end of \<^verbatim>\<open>flushHeapWindow\<close>, from the conversion on: the push is built from the
  configuration as it is when this part runs.
\<close>

definition heapConvertAndPush :: "Env \<Rightarrow> HeapJob \<Rightarrow> HeapProfileNode \<Rightarrow> Profiler \<Rightarrow> Profiler" where
  "heapConvertAndPush env job heapProfile p =
     (let folded = convertHeapToFolded heapProfile
      in if folded = [] then logMsg Debug ''Empty heap profile, skipping'' p
         else emit (Push (pushRequest (localeCompare env) (config p) folded
                            (jobWindowStart job) (jobWindowEnd job) 1 ''alloc_space'')) p)"

text \<open>
  One resumption of a suspended \<^verbatim>\<open>flushHeapWindow\<close>. After the stop: a rejection is
  logged and ends the call; otherwise the sampling is restarted, which suspends the call
  again, unless the session is gone, in which case the access throws inside the
  \<^verbatim>\<open>try\<close>, is logged, and the call goes on to the push at once. After the restart: a
  rejection is logged, and the push follows.
\<close>

definition resumeHeapFlush :: "Env \<Rightarrow> HeapJob \<Rightarrow> Profiler \<Rightarrow> Profiler" where
  "resumeHeapFlush env job p0 =
     (let p = p0\<lparr>pendingHeap := remove1 job (pendingHeap p0)\<rparr>
      in case jobStage job of
           AwaitingStop n \<Rightarrow>
             if \<not> postOk env n ''HeapProfiler.stopSampling''
             then logMsg Warn ''HeapProfiler.stopSampling failed'' p
             else
               (case session p of
                  None \<Rightarrow>
                    heapConvertAndPush env job (heapProfileAt env n)
                      (logMsg Warn ''HeapProfiler.startSampling (restart) failed'' p)
                | Some s \<Rightarrow>
                    (emit (Post ''HeapProfiler.startSampling''
                             (Some (heapSamplingIntervalBytes (config p)))) p)
                      \<lparr>pendingHeap := pendingHeap p
                           @ [job\<lparr>jobStage := AwaitingRestart (heapProfileAt env n)
                                                  (length (trace p))\<rparr>]\<rparr>)
         | AwaitingRestart heapProfile n \<Rightarrow>
             heapConvertAndPush env job heapProfile
               (if \<not> postOk env n ''HeapProfiler.startSampling''
                then logMsg Warn ''HeapProfiler.startSampling (restart) failed'' p
                else p))"

text \<open>
  \<^verbatim>\<open>endWindowAndPush\<close>. \<^verbatim>\<open>pushWithRetry\<close> is called without being awaited; it builds its
  request before its first \<^verbatim>\<open>await\<close>, so the request is fixed here and recorded as a
  \<open>Push\<close>; the attempts that follow are the loop of the delivery section.
\<close>

definition endWindowAndPush :: "Env \<Rightarrow> Profiler \<Rightarrow> Profiler" where
  "endWindowAndPush env p =
     (if session p = None then p
      else
        let windowEnd = nowSeconds env (length (trace p))
        in (case post env ''Profiler.stop'' None p of
              (p1, ok) \<Rightarrow>
                if \<not> ok then logMsg Error ''Profiler.stop failed'' p1
                else
                  let profile = cpuProfileAt env (length (trace p));
                      folded = convertToFolded profile;
                      p2 = (if folded = [] then logMsg Debug ''Empty profile, skipping'' p1
                            else
                              let sampleRate = calculateSampleRate profile
                              in emit (Push (pushRequest (localeCompare env) (config p1) folded
                                               (windowStart p1) windowEnd sampleRate ''cpu'')) p1)
                  in if heapEnabled (config p2)
                     then flushHeapWindow env (windowStart p2) windowEnd p2
                     else p2))"

text \<open>The callback of the push timer.\<close>

definition pushTimerFired :: "Env \<Rightarrow> Profiler \<Rightarrow> Profiler" where
  "pushTimerFired env p =
     (let p1 = endWindowAndPush env p
      in if running p1 then beginWindow env True p1 else p1)"

text \<open>
  \<^verbatim>\<open>start\<close>. The result is the state and the error thrown, if any. In a \<^verbatim>\<open>try\<close> of two
  posts the second is made only when the first has resolved.
\<close>

definition start :: "Env \<Rightarrow> Profiler \<Rightarrow> Profiler \<times> string option" where
  "start env p =
     (if running p
      then (logMsg Warn ''start() called but profiler is already running'' p, None)
      else
        let p1 = emit Connect (p\<lparr>session := Some Session\<rparr>)
        in (case post env ''Profiler.enable'' None p1 of
              (p2, ok1) \<Rightarrow>
                (case (if ok1
                       then post env ''Profiler.setSamplingInterval''
                              (Some (sampleIntervalUs (config p2))) p2
                       else (p2, False)) of
                   (p3, ok2) \<Rightarrow>
                     if \<not> ok2
                     then ((emit Disconnect p3)\<lparr>session := None\<rparr>,
                           Some ''[bun-pyroscope] Failed to initialize profiler session'')
                     else
                       let p4 =
                             (if heapEnabled (config p3)
                              then
                                (case post env ''HeapProfiler.enable'' None p3 of
                                   (q1, okA) \<Rightarrow>
                                     (case (if okA
                                            then post env ''HeapProfiler.startSampling''
                                                   (Some (heapSamplingIntervalBytes (config q1))) q1
                                            else (q1, False)) of
                                        (q2, okB) \<Rightarrow>
                                          if okB then q2
                                          else
                                            (let q3 = logMsg Warn ''HeapProfiler init failed (heap profiling disabled)'' q2
                                             in q3\<lparr>config := (config q3)\<lparr>heapEnabled := False\<rparr>\<rparr>)))
                              else p3);
                           p5 = p4\<lparr>running := True\<rparr>;
                           p6 = installSignalHandlers p5
                       in (beginWindow env True p6, None))))"

text \<open>\<^verbatim>\<open>stop\<close>. Neither the final flush nor the two calls on the session can throw out of it.\<close>

definition stop :: "Env \<Rightarrow> Profiler \<Rightarrow> Profiler" where
  "stop env p =
     (if \<not> running p then p
      else
        let p1 = p\<lparr>running := False\<rparr>;
            p2 = clearPushTimer p1;
            p3 = endWindowAndPush env p2
        in (case session p3 of
              None \<Rightarrow> p3
            | Some s \<Rightarrow>
                let p4 = (if heapEnabled (config p3)
                          then fst (post env ''HeapProfiler.disable'' None p3)
                          else p3)
                in (emit Disconnect p4)\<lparr>session := None\<rparr>))"

text \<open>
  \<^verbatim>\<open>tag\<close>. The function \<open>fn\<close> runs on the profiler as it finds it and leaves it as it
  likes, with a value or an exception; the \<^verbatim>\<open>finally\<close> block runs in both cases, and
  nothing in it throws.
\<close>

definition tag ::
  "Env \<Rightarrow> Labels \<Rightarrow> (Profiler \<Rightarrow> Profiler \<times> 'a Completion) \<Rightarrow> Profiler
     \<Rightarrow> Profiler \<times> 'a Completion" where
  "tag env extraLabels fn p =
     (if \<not> running p \<or> session p = None then fn p
      else
        let p1 = clearPushTimer p;
            p2 = endWindowAndPush env p1;
            savedLabels = labels (config p2);
            p3 = p2\<lparr>config := (config p2)\<lparr>labels := spreadLabels savedLabels extraLabels\<rparr>\<rparr>;
            p4 = beginWindow env False p3
        in (case fn p4 of
              (p5, result) \<Rightarrow>
                let p6 = clearPushTimer p5;
                    p7 = endWindowAndPush env p6;
                    p8 = p7\<lparr>config := (config p7)\<lparr>labels := savedLabels\<rparr>\<rparr>;
                    p9 = (if running p8 then beginWindow env True p8 else p8)
                in (p9, result)))"

section \<open>Notions used to state the properties of the profiler\<close>

text \<open>The requests handed to the delivery, in the order of a trace.\<close>

fun pushesOf :: "Event list \<Rightarrow> PushRequest list" where
  "pushesOf [] = []"
| "pushesOf (Push r # es) = r # pushesOf es"
| "pushesOf (e # es) = pushesOf es"

text \<open>What identifies a request: name, time range, sample rate and body.\<close>

definition pushSummary :: "PushRequest \<Rightarrow> string \<times> int \<times> int \<times> int \<times> string" where
  "pushSummary r =
     (qName (reqUrl r), qFrom (reqUrl r), qUntil (reqUrl r), qSampleRate (reqUrl r), reqBody r)"

subsection \<open>A concrete profiler and its surroundings\<close>

text \<open>A comparator to stand for the collation: the order of the code units.\<close>

fun codeUnitCompare :: "string \<Rightarrow> string \<Rightarrow> int" where
  "codeUnitCompare [] [] = 0"
| "codeUnitCompare [] (y # ys) = -1"
| "codeUnitCompare (x # xs) [] = 1"
| "codeUnitCompare (x # xs) (y # ys) =
     (if (of_char x :: nat) < of_char y then -1
      else if (of_char y :: nat) < of_char x then 1
      else codeUnitCompare xs ys)"

text \<open>
  The configuration \<^verbatim>\<open>BASE\<close> of the tests of the profiler, with two default labels.
\<close>

definition testConfig :: ResolvedConfig where
  "testConfig =
     \<lparr>pyroscopeUrl = ''http://localhost:4040'', appName = ''test-app'',
      sampleIntervalUs = 10000, pushIntervalMs = 60000,
      labels = [(''hostname'', ''web-1''), (''service_name'', ''test-app'')],
      authToken = None, basicAuth = None, maxRetries = 0, debug = False,
      heapEnabled = False, heapSamplingIntervalBytes = 32768\<rparr>"

definition heapConfig :: ResolvedConfig where
  "heapConfig = testConfig\<lparr>heapEnabled := True\<rparr>"

text \<open>The profiler as the constructor leaves it.\<close>

definition newProfiler :: "ResolvedConfig \<Rightarrow> Profiler" where
  "newProfiler cfg =
     \<lparr>config = cfg, session = None, pushTimer = None, running = False, windowStart = 0,
      signalHandlersInstalled = False, trace = [], nextTimer = 0, pendingHeap = []\<rparr>"

text \<open>
  The CPU profile and the heap profile the session of those tests answers with: two samples
  at \<open>main\<close>, and 1024 bytes at \<open>allocHeavy\<close>.
\<close>

definition mainProfile :: CdpProfile where
  "mainProfile =
     \<lparr>nodes = [\<lparr>nodeId = 1, callFrame = plainFrame ''(root)'', children = Some [2]\<rparr>,
               \<lparr>nodeId = 2,
                callFrame = \<lparr>functionName = ''main'', url = ''app.ts'', lineNumber = 1\<rparr>,
                children = None\<rparr>],
      startTime = 0, endTime = 1000000, samples = Some [2, 2]\<rparr>"

definition allocHeavyHeap :: HeapProfileNode where
  "allocHeavyHeap =
     HeapNode (plainFrame ''(root)'') 0
       [HeapNode \<lparr>functionName = ''allocHeavy'', url = ''alloc.ts'', lineNumber = 5\<rparr> 1024 []]"

text \<open>
  Surroundings in which every post resolves and the clock shows the number of effects so
  far.
\<close>

definition testEnv :: Env where
  "testEnv =
     \<lparr>postOk = (\<lambda>n method. True),
      cpuProfileAt = (\<lambda>n. mainProfile),
      heapProfileAt = (\<lambda>n. allocHeavyHeap),
      nowSeconds = (\<lambda>n. int n),
      localeCompare = codeUnitCompare\<rparr>"

text \<open>The profilers after a successful \<^verbatim>\<open>start\<close>, without and with heap sampling.\<close>

definition runningProfiler :: Profiler where
  "runningProfiler = fst (start testEnv (newProfiler testConfig))"

definition runningHeapProfiler :: Profiler where
  "runningHeapProfiler = fst (start testEnv (newProfiler heapConfig))"

text \<open>
  The call \<^verbatim>\<open>tag({ route: "api" }, () => "ok")\<close> on the running profiler with heap
  sampling.
\<close>

definition returnsOk :: "Profiler \<Rightarrow> Profiler \<times> string Completion" where
  "returnsOk p = (p, Returned ''ok'')"

definition taggedRun :: "Profiler \<times> string Completion" where
  "taggedRun = tag testEnv [(''route'', ''api'')] returnsOk runningHeapProfiler"

text \<open>
  The suspended heap flushes of that run: the one of the window closed on entry, and the
  one of the tagged window, before and after its restart of the sampling.
\<close>

definition preTagHeapJob :: HeapJob where
  "preTagHeapJob = \<lparr>jobWindowStart = 6, jobWindowEnd = 9, jobStage = AwaitingStop 11\<rparr>"

definition taggedHeapJob :: HeapJob where
  "taggedHeapJob = \<lparr>jobWindowStart = 12, jobWindowEnd = 13, jobStage = AwaitingStop 15\<rparr>"

definition taggedHeapJobRestarted :: HeapJob where
  "taggedHeapJobRestarted =
     \<lparr>jobWindowStart = 12, jobWindowEnd = 13, jobStage = AwaitingRestart allocHeavyHeap 18\<rparr>"

text \<open>The suspended heap flush of the window that \<^verbatim>\<open>stop\<close> closes.\<close>

definition finalHeapJob :: HeapJob where
  "finalHeapJob = \<lparr>jobWindowStart = 6, jobWindowEnd = 9, jobStage = AwaitingStop 11\<rparr>"

section \<open>Properties of the frame labels\<close>

lemma splitOn_nonempty: "splitOn c s \<noteq> []"
  by (induction s) (auto split: list.splits)

lemma joinWith_Cons: "ys \<noteq> [] \<Longrightarrow> joinWith sep (x # ys) = x @ sep @ joinWith sep ys"
  by (cases ys) auto

lemma joinWith_splitOn: "joinWith [c] (splitOn c s) = s"
proof (induction s)
  case Nil
  then show ?case by simp
next
  case (Cons x xs)
  obtain p ps where sp: "splitOn c xs = p # ps"
    using splitOn_nonempty[of c xs] by (cases "splitOn c xs") auto
  show ?case
  proof (cases "x = c")
    case True
    then show ?thesis using Cons sp by (simp add: joinWith_Cons)
  next
    case False
    have "joinWith [c] ((x # p) # ps) = x # joinWith [c] (p # ps)"
      by (cases ps) auto
    then show ?thesis using False Cons sp by simp
  qed
qed

lemma splitOn_segments: "seg \<in> set (splitOn c s) \<Longrightarrow> c \<notin> set seg"
proof (induction s arbitrary: seg)
  case Nil
  then show ?case by simp
next
  case (Cons x xs)
  obtain p ps where sp: "splitOn c xs = p # ps"
    using splitOn_nonempty[of c xs] by (cases "splitOn c xs") auto
  show ?case
  proof (cases "x = c")
    case True
    then show ?thesis using Cons sp by auto
  next
    case False
    then show ?thesis using Cons.prems Cons.IH sp by auto
  qed
qed

lemma sliceLast2_suffix: "take (length parts - 2) parts @ sliceLast2 parts = parts"
  by (simp add: sliceLast2_def)

lemma sliceLast2_length: "length (sliceLast2 parts) = min 2 (length parts)"
  by (simp add: sliceLast2_def)

lemma trim_Nil_iff: "trim s = [] \<longleftrightarrow> (\<forall>c \<in> set s. isWhitespace c)"
proof
  assume "trim s = []"
  then have all: "\<forall>c \<in> set (dropWhile isWhitespace s). isWhitespace c"
    by (simp only: trim_def rev_is_Nil_conv dropWhile_eq_Nil_conv set_rev)
  have "dropWhile isWhitespace s = []"
  proof (rule ccontr)
    assume ne: "dropWhile isWhitespace s \<noteq> []"
    then have "\<not> isWhitespace (hd (dropWhile isWhitespace s))"
      by (rule hd_dropWhile)
    moreover have "hd (dropWhile isWhitespace s) \<in> set (dropWhile isWhitespace s)"
      using ne by (rule hd_in_set)
    ultimately show False using all by blast
  qed
  then show "\<forall>c \<in> set s. isWhitespace c"
    by (simp only: dropWhile_eq_Nil_conv)
next
  assume "\<forall>c \<in> set s. isWhitespace c"
  then have "dropWhile isWhitespace s = []"
    by (simp only: dropWhile_eq_Nil_conv)
  then show "trim s = []"
    unfolding trim_def by (simp only: rev.simps dropWhile.simps)
qed

text \<open>
  Claim C3, as the code has it. The label is the name alone when the frame has no url, and
  otherwise \<open>name (shortUrl:line)\<close> for a line number of at least 0 and \<open>name (shortUrl)\<close>
  below 0. The name is \<open>(anonymous)\<close> exactly when the function name consists of white
  space only (the empty name included), and the trimmed function name otherwise. The short
  url is the url itself unless the url starts with \<open>file://\<close>; only then is the scheme
  stripped and the rest cut to its last two segments. The segments of a string are the
  pieces free of \<open>/\<close> whose join with \<open>/\<close> gives the string back, and the cut keeps the
  last two of them, or all when there are fewer.
\<close>

theorem frameLabel_file_urls_only:
  "frameLabel cf =
     (let name = (if (\<forall>c \<in> set (functionName cf). isWhitespace c)
                  then ''(anonymous)'' else trim (functionName cf));
          segments = splitOn CHR ''/'' (drop 7 (url cf));
          shortUrl = (if startsWith (url cf) ''file://''
                      then joinWith ''/'' (sliceLast2 segments) else url cf)
      in if url cf = [] then name
         else if 0 \<le> lineNumber cf
              then name @ '' ('' @ shortUrl @ '':'' @ showNat (nat (lineNumber cf)) @ '')''
              else name @ '' ('' @ shortUrl @ '')'')
   \<and> joinWith ''/'' (splitOn CHR ''/'' u) = u
   \<and> (\<forall>seg \<in> set (splitOn CHR ''/'' u). CHR ''/'' \<notin> set seg)
   \<and> take (length (splitOn CHR ''/'' u) - 2) (splitOn CHR ''/'' u) @ sliceLast2 (splitOn CHR ''/'' u)
       = splitOn CHR ''/'' u
   \<and> length (sliceLast2 (splitOn CHR ''/'' u)) = min 2 (length (splitOn CHR ''/'' u))"
proof -
  have "frameLabel cf =
     (let name = (if (\<forall>c \<in> set (functionName cf). isWhitespace c)
                  then ''(anonymous)'' else trim (functionName cf));
          segments = splitOn CHR ''/'' (drop 7 (url cf));
          shortUrl = (if startsWith (url cf) ''file://''
                      then joinWith ''/'' (sliceLast2 segments) else url cf)
      in if url cf = [] then name
         else if 0 \<le> lineNumber cf
              then name @ '' ('' @ shortUrl @ '':'' @ showNat (nat (lineNumber cf)) @ '')''
              else name @ '' ('' @ shortUrl @ '')'')"
    unfolding frameLabel_def Let_def trim_Nil_iff by simp
  moreover have "joinWith ''/'' (splitOn CHR ''/'' u) = u"
    by (rule joinWith_splitOn)
  moreover have "\<forall>seg \<in> set (splitOn CHR ''/'' u). CHR ''/'' \<notin> set seg"
    using splitOn_segments by blast
  ultimately show ?thesis
    using sliceLast2_suffix sliceLast2_length by blast
qed

text \<open>
  The instance of C3 at an anonymous frame of a \<open>file://\<close> url five segments deep.
\<close>

theorem frameLabel_file_urls_only_witness:
  "frameLabel \<lparr>functionName = [], url = ''file:///app/src/deep/handler.ts'', lineNumber = 7\<rparr>
     = ''(anonymous) (deep/handler.ts:7)''
   \<and> ''a'' \<in> set (splitOn CHR ''/'' ''a/b'')
   \<and> CHR ''/'' \<notin> set ''a''"
proof -
  have m: "''a'' \<in> set (splitOn CHR ''/'' ''a/b'')"
    by simp
  from frameLabel_file_urls_only
    [of "\<lparr>functionName = [], url = ''file:///app/src/deep/handler.ts'', lineNumber = 7\<rparr>"
        "''a/b''"]
  have "frameLabel \<lparr>functionName = [], url = ''file:///app/src/deep/handler.ts'', lineNumber = 7\<rparr>
          = ''(anonymous) (deep/handler.ts:7)''"
    and "\<forall>seg \<in> set (splitOn CHR ''/'' ''a/b''). CHR ''/'' \<notin> set seg"
    by (simp_all add: Let_def startsWith_def sliceLast2_def showNat.simps digitChar_def)
  with m show ?thesis by blast
qed

text \<open>
  Claim C3 as stated asks for the last two segments of every url. A url without the
  \<open>file://\<close> scheme is kept whole: the label of \<open>/a/b/c/d.ts\<close> carries all four
  segments, not \<open>c/d.ts\<close>.
\<close>

theorem frameLabel_every_url_counterexample:
  "frameLabel \<lparr>functionName = ''f'', url = ''/a/b/c/d.ts'', lineNumber = 10\<rparr> = ''f (/a/b/c/d.ts:10)''
   \<and> joinWith ''/'' (sliceLast2 (splitOn CHR ''/'' ''/a/b/c/d.ts'')) = ''c/d.ts''
   \<and> frameLabel \<lparr>functionName = ''f'', url = ''/a/b/c/d.ts'', lineNumber = 10\<rparr> \<noteq> ''f (c/d.ts:10)''"
  by code_simp

section \<open>Properties of the CPU conversion\<close>

subsection \<open>The walk of one sample\<close>

lemma chainUp_length: "length (chainUp nm pm cur fuel) \<le> fuel"
  by (induction fuel arbitrary: cur) (auto split: option.splits)

lemma walk_chainUp:
  "depth \<le> MAX_DEPTH \<Longrightarrow>
   walk nm pm cur depth frames =
     (frames @ map (\<lambda>n. frameLabel (callFrame n)) (filter visibleNode (chainUp nm pm cur (MAX_DEPTH - depth))),
      depth + length (chainUp nm pm cur (MAX_DEPTH - depth)))"
proof (induction nm pm cur depth frames rule: walk.induct)
  case (1 nm pm currentId depth frames)
  show ?case
  proof (cases currentId)
    case None
    then show ?thesis
      by (cases "MAX_DEPTH - depth") (simp_all add: walk.simps)
  next
    case (Some c)
    show ?thesis
    proof (cases "depth < MAX_DEPTH")
      case False
      then have "MAX_DEPTH - depth = 0" by simp
      then show ?thesis using False Some by (simp add: walk.simps)
    next
      case True
      then obtain k where k: "MAX_DEPTH - depth = Suc k"
        by (cases "MAX_DEPTH - depth") auto
      then have k': "MAX_DEPTH - Suc depth = k" by simp
      show ?thesis
      proof (cases "nm c")
        case None
        then show ?thesis using Some True k by (simp add: walk.simps)
      next
        case (Some node)
        note nd = this
        show ?thesis
        proof (cases "isRoot (functionName (callFrame node))")
          case True
          then show ?thesis using \<open>currentId = Some c\<close> \<open>depth < MAX_DEPTH\<close> nd k
            by (simp add: walk.simps)
        next
          case False
          have le: "Suc depth \<le> MAX_DEPTH" using \<open>depth < MAX_DEPTH\<close> by simp
          have IH: "walk nm pm (pm c) (Suc depth)
                 (if \<not> shouldSkipFrame (functionName (callFrame node)) (url (callFrame node))
                  then frames @ [frameLabel (callFrame node)] else frames) =
               ((if \<not> shouldSkipFrame (functionName (callFrame node)) (url (callFrame node))
                  then frames @ [frameLabel (callFrame node)] else frames)
                 @ map (\<lambda>n. frameLabel (callFrame n)) (filter visibleNode (chainUp nm pm (pm c) k)),
                Suc depth + length (chainUp nm pm (pm c) k))"
            using "1.IH"[OF \<open>currentId = Some c\<close> \<open>depth < MAX_DEPTH\<close> nd False le] k' by simp
          have "walk nm pm currentId depth frames =
                walk nm pm (pm c) (Suc depth)
                 (if \<not> shouldSkipFrame (functionName (callFrame node)) (url (callFrame node))
                  then frames @ [frameLabel (callFrame node)] else frames)"
            using \<open>currentId = Some c\<close> \<open>depth < MAX_DEPTH\<close> nd False
            by (subst walk.simps) simp
          also note IH
          finally show ?thesis
            using \<open>currentId = Some c\<close> nd False k
            by (simp add: visibleNode_def[of node])
        qed
      qed
    qed
  qed
qed

lemma sampleFrames_chainUp:
  "sampleFrames ns leafId =
     rev (map (\<lambda>n. frameLabel (callFrame n))
            (filter visibleNode (chainUp (nodeMap ns) (parentMap ns) (Some leafId) MAX_DEPTH)))"
  by (simp add: sampleFrames_def walk_chainUp)

lemma sampleFrames_length: "length (sampleFrames ns leafId) \<le> MAX_DEPTH"
proof -
  have "length (sampleFrames ns leafId)
          \<le> length (chainUp (nodeMap ns) (parentMap ns) (Some leafId) MAX_DEPTH)"
    by (simp add: sampleFrames_chainUp)
  then show ?thesis using chainUp_length le_trans by blast
qed

subsection \<open>Counting stacks\<close>









lemma stackCounts_keys:
  "stackCounts ns ss =
     foldl bumpCount []
       (map (\<lambda>l. joinWith '';'' (sampleFrames ns l)) (filter (\<lambda>l. sampleFrames ns l \<noteq> []) ss))"
proof -
  have "foldl (countSample ns) acc ss =
     foldl bumpCount acc
       (map (\<lambda>l. joinWith '';'' (sampleFrames ns l)) (filter (\<lambda>l. sampleFrames ns l \<noteq> []) ss))"
    for acc
    by (induction ss arbitrary: acc) (simp_all add: countSample_def Let_def)
  then show ?thesis by (simp add: stackCounts_def)
qed




lemma convertToFolded_Some:
  "samples profile = Some ss \<Longrightarrow>
   convertToFolded profile = joinWith [CHR 0x0A] (map foldedLine (stackCounts (nodes profile) ss))"
  by (cases ss) (simp_all add: convertToFolded_def stackCounts_def)

subsection \<open>Node and parent maps\<close>

lemma nodeMap_foldl_dom:
  "dom (foldl (\<lambda>m n. m(nodeId n \<mapsto> n)) m0 ns) = dom m0 \<union> nodeId ` set ns"
  by (induction ns arbitrary: m0) auto

lemma nodeMap_dom: "dom (nodeMap ns) = nodeId ` set ns"
  by (simp add: nodeMap_def nodeMap_foldl_dom)

lemma nodeMap_None_iff: "nodeMap ns l = None \<longleftrightarrow> l \<notin> nodeId ` set ns"
  by (simp only: nodeMap_dom[symmetric] domIff) simp

lemma children_foldl_ran:
  "ran (foldl (\<lambda>m' childId. m'(childId \<mapsto> p)) m cs) \<subseteq> insert p (ran m)"
proof (induction cs arbitrary: m)
  case Nil
  then show ?case by auto
next
  case (Cons c cs)
  have "ran (m(c \<mapsto> p)) \<subseteq> insert p (ran m)"
    by (auto simp: ran_def)
  moreover have "ran (foldl (\<lambda>m' childId. m'(childId \<mapsto> p)) (m(c \<mapsto> p)) cs)
                   \<subseteq> insert p (ran (m(c \<mapsto> p)))"
    by (rule Cons.IH)
  ultimately show ?case unfolding foldl_Cons by blast
qed

lemma parentMap_foldl_ran:
  "ran (foldl (\<lambda>m n. case children n of
                     None \<Rightarrow> m
                   | Some cs \<Rightarrow> foldl (\<lambda>m' childId. m'(childId \<mapsto> nodeId n)) m cs)
           m0 ns) \<subseteq> ran m0 \<union> nodeId ` set ns"
proof (induction ns arbitrary: m0)
  case Nil
  then show ?case by simp
next
  case (Cons n ns)
  let ?m1 = "case children n of None \<Rightarrow> m0
             | Some cs \<Rightarrow> foldl (\<lambda>m' childId. m'(childId \<mapsto> nodeId n)) m0 cs"
  have "ran ?m1 \<subseteq> insert (nodeId n) (ran m0)"
  proof (cases "children n")
    case None
    then show ?thesis by auto
  next
    case (Some cs)
    then show ?thesis using children_foldl_ran[of "nodeId n" m0 cs] by simp
  qed
  moreover have "ran (foldl (\<lambda>m n. case children n of
                     None \<Rightarrow> m
                   | Some cs \<Rightarrow> foldl (\<lambda>m' childId. m'(childId \<mapsto> nodeId n)) m cs)
           ?m1 ns) \<subseteq> ran ?m1 \<union> nodeId ` set ns"
    by (rule Cons.IH)
  ultimately show ?case unfolding foldl_Cons list.set image_insert by blast
qed

lemma parentMap_parent_known: "parentMap ns c = Some q \<Longrightarrow> q \<in> nodeId ` set ns"
proof -
  assume "parentMap ns c = Some q"
  then have "q \<in> ran (parentMap ns)" by (auto simp: ran_def)
  then show ?thesis using parentMap_foldl_ran[of Map.empty ns] by (auto simp: parentMap_def)
qed

lemma sampleFrames_unknown: "l \<notin> nodeId ` set ns \<Longrightarrow> sampleFrames ns l = []"
proof -
  assume "l \<notin> nodeId ` set ns"
  then have "nodeMap ns l = None" by (simp add: nodeMap_None_iff)
  then show ?thesis
    by (simp add: sampleFrames_def walk.simps MAX_DEPTH_def)
qed

lemma stackCounts_known:
  "stackCounts ns ss = stackCounts ns (filter (\<lambda>l. l \<in> nodeId ` set ns) ss)"
proof -
  have "filter (\<lambda>l. sampleFrames ns l \<noteq> []) (filter (\<lambda>l. l \<in> nodeId ` set ns) ss)
          = filter (\<lambda>l. sampleFrames ns l \<noteq> []) ss"
    by (induction ss) (auto simp: sampleFrames_unknown)
  then show ?thesis by (simp add: stackCounts_keys)
qed

subsection \<open>One line per distinct stack\<close>




subsection \<open>The depth cap\<close>

lemma cyclic_maps:
  "nodeMap (nodes cyclicProfile) 1 = Some spinNode"
  "parentMap (nodes cyclicProfile) 1 = Some 1"
  by (simp_all add: cyclicProfile_def nodeMap_def parentMap_def spinNode_def)

lemma cyclic_chainUp:
  "chainUp (nodeMap (nodes cyclicProfile)) (parentMap (nodes cyclicProfile)) (Some 1) fuel
     = replicate fuel spinNode"
proof (induction fuel)
  case 0
  then show ?case by simp
next
  case (Suc fuel)
  have "\<not> isRoot (functionName (callFrame spinNode))"
    by (simp add: isRoot_def spinNode_def plainFrame_def)
  then show ?case using Suc by (simp add: cyclic_maps)
qed

lemma cyclic_spin_frames:
  "sampleFrames (nodes cyclicProfile) 1 = replicate MAX_DEPTH ''spin''"
proof -
  have v: "visibleNode spinNode"
    by (simp add: visibleNode_def spinNode_def plainFrame_def shouldSkipFrame_def)
  have l: "frameLabel (callFrame spinNode) = ''spin''"
    by (simp add: spinNode_def plainFrame_def frameLabel_def trim_def isWhitespace_def)
  show ?thesis
    by (simp add: sampleFrames_chainUp cyclic_chainUp v l map_replicate_const)
qed

lemma cyclic_work_frames: "sampleFrames (nodes cyclicProfile) 3 = [''work'']"
  unfolding cyclicProfile_def spinNode_def by code_simp

lemma joinWith_replicate_step:
  "joinWith sep (replicate (Suc (Suc n)) x) = x @ sep @ joinWith sep (replicate (Suc n) x)"
  by simp

lemma cyclic_counts:
  "stackCounts (nodes cyclicProfile) [1, 3, 1]
     = [(joinWith '';'' (replicate MAX_DEPTH ''spin''), 2), (''work'', 1)]"
proof -
  have ne: "replicate MAX_DEPTH ''spin'' \<noteq> []" by (simp add: MAX_DEPTH_def)
  have md: "MAX_DEPTH = Suc (Suc 510)" by (simp add: MAX_DEPTH_def)
  have "joinWith '';'' (replicate MAX_DEPTH ''spin'')
               = ''spin'' @ '';'' @ joinWith '';'' (replicate (Suc 510) ''spin'')"
    unfolding md by (rule joinWith_replicate_step)
  then have diff: "joinWith '';'' (replicate MAX_DEPTH ''spin'') \<noteq> ''work''"
    by simp
  show ?thesis
    using ne diff
    by (simp add: stackCounts_def countSample_def cyclic_spin_frames cyclic_work_frames)
qed

text \<open>
  Claim C7. The walk is defined for every node map and parent map, with no assumption that
  the parent links form a tree. From any leaf it ends with a depth of at most 512, which is
  the number of nodes it has visited, and it collects at most 512 frames. On the cyclic
  profile the walk from the node on the cycle runs into the cap, ends with 512 frames, and
  the conversion returns: the two samples on the cycle share one line, and the sample
  outside the cycle has its own line as usual.
\<close>

theorem walk_depth_capped:
  "snd (walk nm pm (Some leafId) 0 []) \<le> MAX_DEPTH
   \<and> snd (walk nm pm (Some leafId) 0 []) = length (chainUp nm pm (Some leafId) MAX_DEPTH)
   \<and> length (sampleFrames ns leafId) \<le> MAX_DEPTH
   \<and> MAX_DEPTH = 512
   \<and> sampleFrames (nodes cyclicProfile) 1 = replicate 512 ''spin''
   \<and> convertToFolded cyclicProfile
       = joinWith '';'' (replicate 512 ''spin'') @ '' 2'' @ [CHR 0x0A] @ ''work 1''"
proof -
  have w: "walk nm pm (Some leafId) 0 []
             = (map (\<lambda>n. frameLabel (callFrame n))
                  (filter visibleNode (chainUp nm pm (Some leafId) MAX_DEPTH)),
                length (chainUp nm pm (Some leafId) MAX_DEPTH))"
    using walk_chainUp [of 0 nm pm "Some leafId" "[]"] by simp
  have a: "snd (walk nm pm (Some leafId) 0 []) = length (chainUp nm pm (Some leafId) MAX_DEPTH)"
    by (simp add: w)
  have b: "snd (walk nm pm (Some leafId) 0 []) \<le> MAX_DEPTH"
    unfolding a by (rule chainUp_length)
  have c: "length (sampleFrames ns leafId) \<le> MAX_DEPTH"
    by (rule sampleFrames_length)
  have d: "MAX_DEPTH = 512" by (simp add: MAX_DEPTH_def)
  have e: "sampleFrames (nodes cyclicProfile) 1 = replicate 512 ''spin''"
    using cyclic_spin_frames by (simp add: MAX_DEPTH_def)
  have s: "samples cyclicProfile = Some [1, 3, 1]"
    by (simp add: cyclicProfile_def)
  have "convertToFolded cyclicProfile
          = joinWith [CHR 0x0A] (map foldedLine (stackCounts (nodes cyclicProfile) [1, 3, 1]))"
    using s by (rule convertToFolded_Some)
  then have f: "convertToFolded cyclicProfile
       = joinWith '';'' (replicate 512 ''spin'') @ '' 2'' @ [CHR 0x0A] @ ''work 1''"
    by (simp add: cyclic_counts foldedLine_def showNat.simps digitChar_def MAX_DEPTH_def)
  from a b c d e f show ?thesis by blast
qed

subsection \<open>Samples of unknown nodes\<close>

text \<open>
  Claim C10. A sample whose leaf id is not the id of a node has an empty frame list. The
  node map has a node for exactly the ids of the node list, and every parent link leads to
  an id that has a node, so a walk can miss a node only at its leaf. Dropping the samples
  of unknown ids changes neither the counted stacks nor the output, and a profile of which
  no sample names a node converts to the empty string.
\<close>

theorem convertToFolded_unknown_ids:
  assumes "samples profile = Some ss"
  shows "(\<forall>l. l \<notin> nodeId ` set (nodes profile) \<longrightarrow> sampleFrames (nodes profile) l = [])
       \<and> (\<forall>l. (nodeMap (nodes profile) l = None) = (l \<notin> nodeId ` set (nodes profile)))
       \<and> (\<forall>c q. parentMap (nodes profile) c = Some q \<longrightarrow> nodeMap (nodes profile) q \<noteq> None)
       \<and> stackCounts (nodes profile) ss
            = stackCounts (nodes profile) (filter (\<lambda>l. l \<in> nodeId ` set (nodes profile)) ss)
       \<and> convertToFolded profile
            = convertToFolded
                (profile\<lparr>samples := Some (filter (\<lambda>l. l \<in> nodeId ` set (nodes profile)) ss)\<rparr>)
       \<and> (set ss \<inter> nodeId ` set (nodes profile) = {} \<longrightarrow> convertToFolded profile = [])"
proof -
  let ?ns = "nodes profile"
  let ?known = "filter (\<lambda>l. l \<in> nodeId ` set ?ns) ss"
  have a: "\<forall>l. l \<notin> nodeId ` set ?ns \<longrightarrow> sampleFrames ?ns l = []"
    using sampleFrames_unknown by blast
  have b: "\<forall>l. (nodeMap ?ns l = None) = (l \<notin> nodeId ` set ?ns)"
    using nodeMap_None_iff by blast
  have c: "\<forall>c q. parentMap ?ns c = Some q \<longrightarrow> nodeMap ?ns q \<noteq> None"
    using parentMap_parent_known nodeMap_None_iff by blast
  have d: "stackCounts ?ns ss = stackCounts ?ns ?known"
    by (rule stackCounts_known)
  have e: "convertToFolded profile = convertToFolded (profile\<lparr>samples := Some ?known\<rparr>)"
    using d assms by (simp add: convertToFolded_Some)
  have f: "set ss \<inter> nodeId ` set ?ns = {} \<longrightarrow> convertToFolded profile = []"
  proof
    assume "set ss \<inter> nodeId ` set ?ns = {}"
    then have "?known = []" by (auto simp: filter_empty_conv)
    then show "convertToFolded profile = []"
      using e by (simp add: convertToFolded_def)
  qed
  from a b c d e f show ?thesis by blast
qed

text \<open>The instance of C10 at the profile whose only sample is the unknown id 99.\<close>

theorem convertToFolded_unknown_ids_witness:
  "samples knownFuncProfile = Some [99]
   \<and> set [99] \<inter> nodeId ` set (nodes knownFuncProfile) = {}
   \<and> sampleFrames (nodes knownFuncProfile) 99 = []
   \<and> convertToFolded knownFuncProfile = []"
proof -
  have h: "samples knownFuncProfile = Some [99]"
    by (simp add: knownFuncProfile_def)
  have d: "set [99] \<inter> nodeId ` set (nodes knownFuncProfile) = {}"
    by (simp add: knownFuncProfile_def)
  have u: "99 \<notin> nodeId ` set (nodes knownFuncProfile)"
    by (simp add: knownFuncProfile_def)
  from convertToFolded_unknown_ids [OF h] h d u show ?thesis by blast
qed

section \<open>Properties of the heap conversion\<close>

lemma pathOf_snoc:
  "pathOf (anc @ [cf]) = (if visibleFrame cf then pathOf anc @ [frameLabel cf] else pathOf anc)"
  by (simp add: pathOf_def)

lemma heapWalk_chains:
  "heapWalk node (pathOf anc) = map heapLine (filter emitsLine (heapChains node anc))"
proof (induction node "pathOf anc" arbitrary: anc rule: heapWalk.induct)
  case (1 cf sz cs)
  let ?next = "pathOf (anc @ [cf])"
  have nf: "(if isRoot (functionName cf) \<or> shouldSkipFrame (functionName cf) (url cf)
             then pathOf anc else pathOf anc @ [frameLabel cf]) = ?next"
    by (simp add: pathOf_snoc visibleFrame_def)
  have kids: "\<And>child. child \<in> set cs \<Longrightarrow>
       heapWalk child ?next = map heapLine (filter emitsLine (heapChains child (anc @ [cf])))"
    using "1.hyps"[OF nf[symmetric]] by simp
  have "concat (map (\<lambda>child. heapWalk child ?next) cs)
         = map heapLine (filter emitsLine
             (concat (map (\<lambda>child. heapChains child (anc @ [cf])) cs)))"
    using kids by (induction cs) simp_all
  then show ?case
    by (simp add: nf Let_def heapLine_def emitsLine_def)
qed

lemma convertHeapToFolded_chains:
  "convertHeapToFolded head
     = joinWith [CHR 0x0A] (map heapLine (filter emitsLine (heapChains head [])))"
  using heapWalk_chains[of head "[]"] by (simp add: convertHeapToFolded_def pathOf_def)

text \<open>
  Claim C4. The lines of the heap conversion are, in the order of the traversal, one line
  \<open>path selfSize\<close> for each node with a positive self size and a non-empty path, where the
  path of a node is the list of the labels of the non-root, non-skipped frames from the
  head down to the node. A skipped node adds nothing to the path, so its self size goes to
  the path of the visible frames above it, and is dropped when there are none. A tree of
  self sizes 0 converts to the empty string, and \<open>(root) \<rightarrow> parent \<rightarrow> (idle, 512)\<close>
  converts to \<open>parent 512\<close>.
\<close>

theorem convertHeapToFolded_lines:
  "convertHeapToFolded head
     = joinWith [CHR 0x0A] (map heapLine (filter emitsLine (heapChains head [])))
   \<and> heapWalk head [] = map heapLine (filter emitsLine (heapChains head []))
   \<and> ((\<forall>e \<in> set (heapChains head []). snd e = 0) \<longrightarrow> convertHeapToFolded head = [])
   \<and> convertHeapToFolded idleUnderParent = ''parent 512''"
proof -
  have a: "convertHeapToFolded head
     = joinWith [CHR 0x0A] (map heapLine (filter emitsLine (heapChains head [])))"
    by (rule convertHeapToFolded_chains)
  have b: "heapWalk head [] = map heapLine (filter emitsLine (heapChains head []))"
    using heapWalk_chains[of head "[]"] by (simp add: pathOf_def)
  have c: "(\<forall>e \<in> set (heapChains head []). snd e = 0) \<longrightarrow> convertHeapToFolded head = []"
  proof
    assume "\<forall>e \<in> set (heapChains head []). snd e = 0"
    then have "filter emitsLine (heapChains head []) = []"
      by (auto simp: filter_empty_conv emitsLine_def)
    then show "convertHeapToFolded head = []"
      by (simp add: a)
  qed
  have d: "convertHeapToFolded idleUnderParent = ''parent 512''"
    unfolding idleUnderParent_def plainFrame_def by code_simp
  from a b c d show ?thesis by blast
qed

text \<open>
  The instances of C4 at the tree without self size, and the paths of the three nodes of
  \<open>(root) \<rightarrow> parent \<rightarrow> (idle, 512)\<close>.
\<close>

theorem convertHeapToFolded_lines_witness:
  "map snd (heapChains allZeroHeap []) = [0, 0, 0]
   \<and> convertHeapToFolded allZeroHeap = []
   \<and> map (\<lambda>e. (pathOf (fst e), snd e)) (heapChains idleUnderParent [])
       = [([], 0), ([''parent''], 0), ([''parent''], 512)]"
proof -
  have z: "map snd (heapChains allZeroHeap []) = [0, 0, 0]"
    by (simp add: allZeroHeap_def)
  have "set (map snd (heapChains allZeroHeap [])) = {0}"
    by (simp only: z) simp
  then have z': "\<forall>e \<in> set (heapChains allZeroHeap []). snd e = 0"
    by auto
  have p: "map (\<lambda>e. (pathOf (fst e), snd e)) (heapChains idleUnderParent [])
       = [([], 0), ([''parent''], 0), ([''parent''], 512)]"
    unfolding idleUnderParent_def plainFrame_def pathOf_def by code_simp
  from convertHeapToFolded_lines [of allZeroHeap] z z' p show ?thesis by blast
qed

section \<open>Properties of the sample rate\<close>

subsection \<open>Rounding to binary64\<close>

text \<open>The exponent found is the binary exponent, and there is only one.\<close>

lemma two_powi_succ: "(2::real) powi (e + 1) = 2 * 2 powi e"
  by (simp add: power_int_add_1')

lemma two_powi_pred: "(2::real) powi (e - 1) = 2 powi e / 2"
  by (simp add: power_int_diff)

lemma binaryExponent_bounds:
  "1 / 2 ^ k \<le> x \<Longrightarrow> x < 2 * 2 ^ k \<Longrightarrow>
   2 powi (binaryExponent k x) \<le> x \<and> x < 2 powi (binaryExponent k x + 1)"
proof (induction k arbitrary: x)
  case 0
  then show ?case by simp
next
  case (Suc k)
  have one: "(1::real) / 2 ^ k \<le> 1" by simp
  have big: "(1::real) \<le> 2 ^ k" by simp
  show ?case
  proof (cases "2 \<le> x")
    case True
    have "1 / 2 ^ k \<le> x / 2" using True one by linarith
    moreover have "x / 2 < 2 * 2 ^ k" using Suc.prems(2) by simp
    ultimately have ih: "2 powi (binaryExponent k (x / 2)) \<le> x / 2
                       \<and> x / 2 < 2 powi (binaryExponent k (x / 2) + 1)"
      by (rule Suc.IH)
    have e: "binaryExponent (Suc k) x = binaryExponent k (x / 2) + 1"
      using True by simp
    have s1: "(2::real) powi (binaryExponent k (x / 2) + 1) = 2 * 2 powi (binaryExponent k (x / 2))"
      by (rule two_powi_succ)
    have s2: "(2::real) powi (binaryExponent k (x / 2) + 1 + 1)
                = 2 * 2 powi (binaryExponent k (x / 2) + 1)"
      by (rule two_powi_succ)
    show ?thesis
      unfolding e using ih s1 s2 by linarith
  next
    case False
    note ge2 = this
    show ?thesis
    proof (cases "x < 1")
      case True
      have "1 / 2 ^ k \<le> 2 * x" using Suc.prems(1) by (simp add: field_simps)
      moreover have "2 * x < 2 * 2 ^ k" using True big by linarith
      ultimately have ih: "2 powi (binaryExponent k (2 * x)) \<le> 2 * x
                       \<and> 2 * x < 2 powi (binaryExponent k (2 * x) + 1)"
        by (rule Suc.IH)
      have e: "binaryExponent (Suc k) x = binaryExponent k (2 * x) - 1"
        using True ge2 by simp
      have s1: "(2::real) powi (binaryExponent k (2 * x) + 1) = 2 * 2 powi (binaryExponent k (2 * x))"
        by (rule two_powi_succ)
      have s2: "(2::real) powi (binaryExponent k (2 * x) - 1) = 2 powi (binaryExponent k (2 * x)) / 2"
        by (rule two_powi_pred)
      have s3: "binaryExponent k (2 * x) - 1 + 1 = binaryExponent k (2 * x)" by simp
      show ?thesis
        unfolding e s3 using ih s1 s2 by linarith
    next
      case False
      then show ?thesis using ge2 by simp
    qed
  qed
qed

lemma two_powi_exponent_unique:
  fixes x :: real
  assumes "2 powi e \<le> x" "x < 2 powi (e + 1)" "2 powi e' \<le> x" "x < 2 powi (e' + 1)"
  shows "e = e'"
proof -
  have a: "e < e' + 1"
  proof (rule ccontr)
    assume "\<not> e < e' + 1"
    then have "(2::real) powi (e' + 1) \<le> 2 powi e"
      by (intro power_int_increasing) auto
    then show False using assms(1,4) by linarith
  qed
  have b: "e' < e + 1"
  proof (rule ccontr)
    assume "\<not> e' < e + 1"
    then have "(2::real) powi (e + 1) \<le> 2 powi e'"
      by (intro power_int_increasing) auto
    then show False using assms(2,3) by linarith
  qed
  from a b show ?thesis by simp
qed

text \<open>The rounded significand is the nearest whole number.\<close>

lemma roundHalfEven_error: "\<bar>of_int (roundHalfEven m) - m\<bar> \<le> 1 / 2"
  unfolding roundHalfEven_def Let_def by (auto; linarith)

lemma roundHalfEven_near:
  assumes "\<bar>m - of_int k\<bar> < 1 / 2"
  shows "roundHalfEven m = k"
proof -
  have "\<bar>of_int (roundHalfEven m) - m\<bar> \<le> 1 / 2" by (rule roundHalfEven_error)
  then have "\<bar>real_of_int (roundHalfEven m) - of_int k\<bar> < 1" using assms by linarith
  then have "\<bar>real_of_int (roundHalfEven m - k)\<bar> < 1" by simp
  then have "\<bar>roundHalfEven m - k\<bar> < 1"
    by (metis of_int_abs of_int_less_1_iff)
  then show ?thesis by simp
qed




text \<open>
  In the normal range the rounding is that of the significand at the exponent of the
  number, it is off by a relative \<open>2 ^ - 53\<close> at most, and a whole number below \<open>2 ^ 53\<close>
  is kept as it is.
\<close>

lemma toDouble_normal:
  assumes "2 powi e \<le> x" "x < 2 powi (e + 1)" "- 1022 \<le> e" "e \<le> 1100"
  shows "toDouble x = of_int (roundHalfEven (x * 2 powi (52 - e))) * 2 powi (e - 52)"
proof -
  have "(0::real) < 2 powi e" by simp
  then have pos: "0 < x" using assms(1) by linarith
  have "(2::real) powi (- 1100) \<le> 2 powi e"
    using assms(3) by (intro power_int_increasing) auto
  then have lo: "1 / 2 ^ 1100 \<le> x" using assms(1) by (simp add: power_int_minus_divide)
  have "(2::real) powi (e + 1) \<le> 2 powi 1101"
    using assms(4) by (intro power_int_increasing) auto
  then have hi: "x < 2 * 2 ^ 1100" using assms(2) by simp
  have "2 powi (binaryExponent 1100 x) \<le> x \<and> x < 2 powi (binaryExponent 1100 x + 1)"
    using lo hi by (rule binaryExponent_bounds)
  then have "binaryExponent 1100 x = e"
    using assms(1,2) two_powi_exponent_unique by blast
  then show ?thesis
    using pos assms(3) by (simp add: toDouble_def Let_def max_def)
qed

lemma toDouble_eq:
  assumes "2 powi e \<le> x" "x < 2 powi (e + 1)" "- 1022 \<le> e" "e \<le> 1100"
    and "\<bar>x * 2 powi (52 - e) - of_int m\<bar> < 1 / 2"
  shows "toDouble x = of_int m * 2 powi (e - 52)"
  using toDouble_normal[OF assms(1-4)] roundHalfEven_near[OF assms(5)] by simp



lemma roundHalfEven_of_int: "roundHalfEven (of_int k) = k"
  by (rule roundHalfEven_near) simp

lemma toDouble_integer:
  assumes "0 < k" "k < 2 ^ 53"
  shows "toDouble (of_int k) = of_int k"
proof -
  define x :: real where "x = of_int k"
  have x1: "1 \<le> x" using assms(1) by (simp add: x_def)
  have x53: "x < 2 ^ 53" using assms(2) unfolding x_def by (metis of_int_less_iff of_int_numeral of_int_power)
  have lo: "1 / 2 ^ 1100 \<le> x"
  proof -
    have "(1::real) / 2 ^ 1100 \<le> 1" by simp
    then show ?thesis using x1 by linarith
  qed
  have "(2::real) ^ 53 \<le> 2 * 2 ^ 1100"
  proof -
    have "(2::real) ^ 53 \<le> 2 ^ 1100" by (rule power_increasing) auto
    then show ?thesis by simp
  qed
  then have hi: "x < 2 * 2 ^ 1100" using x53 by linarith
  define e where "e = binaryExponent 1100 x"
  have b: "2 powi e \<le> x" "x < 2 powi (e + 1)"
    using binaryExponent_bounds[OF lo hi] by (simp_all add: e_def)
  have e0: "0 \<le> e"
  proof (rule ccontr)
    assume "\<not> 0 \<le> e"
    then have "(2::real) powi (e + 1) \<le> 2 powi 0"
      by (intro power_int_increasing) auto
    then show False using b(2) x1 by simp
  qed
  have e52: "e \<le> 52"
  proof (rule ccontr)
    assume "\<not> e \<le> 52"
    then have "(2::real) powi 53 \<le> 2 powi e"
      by (intro power_int_increasing) auto
    then show False using b(1) x53 by simp
  qed
  have td: "toDouble x = of_int (roundHalfEven (x * 2 powi (52 - e))) * 2 powi (e - 52)"
    using b by (rule toDouble_normal) (use e0 e52 in auto)
  have "x * 2 powi (52 - e) = of_int (k * 2 ^ nat (52 - e))"
    using e52 by (simp add: x_def power_int_nonneg_exp)
  then have "roundHalfEven (x * 2 powi (52 - e)) = k * 2 ^ nat (52 - e)"
    by (simp only: roundHalfEven_of_int)
  then have "toDouble x = x * 2 powi (52 - e) * 2 powi (e - 52)"
    using td e52 by (simp add: x_def power_int_nonneg_exp)
  also have "\<dots> = x"
    by (simp add: mult.assoc flip: power_int_add)
  finally show ?thesis by (simp add: x_def)
qed

subsection \<open>The rate\<close>






text \<open>
  Two samples per second, and two profiles whose exact rate is a tie, 124.5 and 64062.5:
  the product computed in binary64 lies below it.
\<close>

lemma rate_two_per_second:
  "numMul (numDiv 2 1000000) 1000000 = 2"
proof -
  have q: "numDiv 2 1000000 = of_int 4722366482869645 * 2 powi (- 19 - 52)"
    unfolding numDiv_def
    by (rule toDouble_eq) (simp_all add: power_int_minus_divide)
  have p: "numMul (of_int 4722366482869645 * 2 powi (- 19 - 52)) 1000000
          = of_int 9007199254740992 * 2 powi (0 - 52)"
    unfolding numMul_def
    by (rule toDouble_eq) (simp_all add: power_int_minus_divide)
  have r: "of_int 9007199254740992 * 2 powi (0 - 52) = (2::real)"
    by (simp add: power_int_minus_divide)
  show ?thesis unfolding q p r ..
qed

lemma rate_below_tie:
  "numMul (numDiv 1245 10000000) 1000000 = 8760908650119167 / 2 ^ 46"
proof -
  have q: "numDiv 1245 10000000 = of_int 4593239274353678 * 2 powi (- 13 - 52)"
    unfolding numDiv_def
    by (rule toDouble_eq) (simp_all add: power_int_minus_divide)
  have p: "numMul (of_int 4593239274353678 * 2 powi (- 13 - 52)) 1000000
          = of_int 8760908650119167 * 2 powi (6 - 52)"
    unfolding numMul_def
    by (rule toDouble_eq) (simp_all add: power_int_minus_divide)
  have r: "of_int 8760908650119167 * 2 powi (6 - 52) = (8760908650119167 / 2 ^ 46 :: real)"
    by (simp add: power_int_minus_divide)
  show ?thesis unfolding q p r ..
qed

lemma rate_below_tie_short:
  "numMul (numDiv 41 640) 1000000 = 8804682956799999 / 2 ^ 37"
proof -
  have q: "numDiv 41 640 = of_int 4616189618054758 * 2 powi (- 4 - 52)"
    unfolding numDiv_def
    by (rule toDouble_eq) (simp_all add: power_int_minus_divide)
  have p: "numMul (of_int 4616189618054758 * 2 powi (- 4 - 52)) 1000000
          = of_int 8804682956799999 * 2 powi (15 - 52)"
    unfolding numMul_def
    by (rule toDouble_eq) (simp_all add: power_int_minus_divide)
  have r: "of_int 8804682956799999 * 2 powi (15 - 52) = (8804682956799999 / 2 ^ 37 :: real)"
    by (simp add: power_int_minus_divide)
  show ?thesis unfolding q p r ..
qed

text \<open>A difference of whole numbers below \<open>2 ^ 53\<close> is exact.\<close>

lemma numSub_integer:
  "0 < a - b \<Longrightarrow> a - b < 2 ^ 53 \<Longrightarrow> numSub (of_int a) (of_int b) = of_int (a - b)"
  using toDouble_integer [of "a - b"] by (simp add: numSub_def)


lemma numSub_from_zero:
  "numSub 1000000 0 = 1000000" "numSub 15000000 0 = 15000000" "numSub 10000000 0 = 10000000"
  "numSub 640 0 = 640"
  using numSub_integer [of 1000000 0] numSub_integer [of 15000000 0]
    numSub_integer [of 10000000 0] numSub_integer [of 640 0]
  by simp_all





text \<open>
  The rounding of the product decides at a tie of the exact rate: for 1245 samples over
  10000000 microseconds the exact rate is 124.5, the product as computed lies just below
  it, and the rate is 124; likewise 41 samples over 640 microseconds, of the exact rate
  64062.5, have the rate 64062.
\<close>

lemma calculateSampleRate_below_tie:
  "calculateSampleRate (rateProfile 1245 0 10000000) = 124"
  "calculateSampleRate (rateProfile 41 0 640) = 64062"
  by (simp_all add: calculateSampleRate_def rateProfile_def numSub_from_zero
        rate_below_tie rate_below_tie_short mathRound_def)
section \<open>Properties of the delivery\<close>

lemma showNat_digit: "showNat 4 = ''4''"
  by (simp add: showNat.simps[of 4] digitChar_def)

lemma showNat_4xx:
  assumes "400 \<le> n" "n < 500"
  shows "showNat n = CHR ''4'' # [digitChar (n div 10 mod 10), digitChar (n mod 10)]"
proof -
  have a: "showNat n = showNat (n div 10) @ [digitChar (n mod 10)]"
    using assms by (simp add: showNat.simps[of n])
  have "\<not> n div 10 < 10" using assms by simp
  then have b: "showNat (n div 10) = showNat (n div 10 div 10) @ [digitChar (n div 10 mod 10)]"
    by (simp add: showNat.simps[of "n div 10"])
  have d: "n div 10 div 10 = 4" using assms by (simp add: div_mult2_eq[symmetric])
  have c: "showNat (n div 10 div 10) = ''4''"
    by (simp only: d showNat_digit)
  show ?thesis by (simp only: a b c) simp
qed

lemma httpError_4xx:
  "400 \<le> status \<Longrightarrow> status < 500 \<Longrightarrow> startsWith (httpError status body) ''HTTP 4''"
  by (simp add: httpError_def startsWith_def showNat_4xx)

lemma pushLoop_step_retry:
  assumes "int a \<le> maxR" "retryable (fetch a)"
  shows "pushLoop maxR fetch a le sl
           = pushLoop maxR fetch (Suc a) (Some (errorOf (fetch a)))
               (sl @ (if 0 < a then [backoffMs a] else []))"
proof (cases "fetch a")
  case (Response status body)
  then show ?thesis using assms
    by (subst pushLoop.simps) (auto simp: retryable_def errorOf_def Let_def)
next
  case (Rejected message)
  then show ?thesis using assms
    by (subst pushLoop.simps) (simp add: retryable_def errorOf_def Let_def)
next
  case (RejectedValue shown)
  then show ?thesis using assms
    by (subst pushLoop.simps) (simp add: retryable_def errorOf_def Let_def)
qed

lemma pushLoop_retry_run:
  "int k \<le> maxR + 1 \<Longrightarrow> (\<forall>i<k. retryable (fetch i)) \<Longrightarrow>
   pushLoop maxR fetch 0 None []
     = pushLoop maxR fetch k (if k = 0 then None else Some (errorOf (fetch (k - 1))))
         (map backoffMs [1..<k])"
proof (induction k)
  case 0
  then show ?case by simp
next
  case (Suc k)
  have run: "pushLoop maxR fetch 0 None []
     = pushLoop maxR fetch k (if k = 0 then None else Some (errorOf (fetch (k - 1))))
         (map backoffMs [1..<k])"
    using Suc by simp
  have le: "int k \<le> maxR" using Suc.prems by simp
  have r: "retryable (fetch k)" using Suc.prems by simp
  have sl: "map backoffMs [1..<k] @ (if 0 < k then [backoffMs k] else []) = map backoffMs [1..<Suc k]"
    by (cases k) simp_all
  show ?case
    by (simp only: run pushLoop_step_retry[of k maxR fetch, OF le r] sl) simp
qed

lemma pushLoop_at_ok:
  assumes "int k \<le> maxR" "fetch k = Response status body" "responseOk status"
  shows "pushLoop maxR fetch k le sl
           = \<lparr>thrown = None, sleeps = sl @ (if 0 < k then [backoffMs k] else []), fetches = Suc k\<rparr>"
  using assms by (subst pushLoop.simps) (simp add: Let_def)

lemma pushLoop_at_4xx:
  assumes "int k \<le> maxR" "fetch k = Response status body" "400 \<le> status" "status < 500"
  shows "pushLoop maxR fetch k le sl
           = \<lparr>thrown = Some (httpError status body),
               sleeps = sl @ (if 0 < k then [backoffMs k] else []), fetches = Suc k\<rparr>"
  using assms httpError_4xx[of status body]
  by (subst pushLoop.simps) (simp add: Let_def responseOk_def)

lemma pushLoop_at_end:
  assumes "\<not> int k \<le> maxR"
  shows "pushLoop maxR fetch k le sl = \<lparr>thrown = le, sleeps = sl, fetches = k\<rparr>"
  using assms by (subst pushLoop.simps) simp

lemma backoff_snoc: "map backoffMs [1..<k] @ (if 0 < k then [backoffMs k] else []) = map backoffMs [1..<Suc k]"
  by (cases k) simp_all

lemma pushLoop_fetches_le:
  "fetches (pushLoop maxR fetch a le sl) \<le> max a (nat (maxR + 1))"
proof (induction maxR fetch a le sl rule: pushLoop.induct)
  case (1 maxR fetch attempt lastError slept)
  note ih1 = "1.IH"(1) and ih2 = "1.IH"(2) and ih3 = "1.IH"(3) and ih4 = "1.IH"(4)
  show ?case
  proof (cases "int attempt \<le> maxR")
    case False
    then show ?thesis by (simp add: pushLoop_at_end)
  next
    case True
    then have b: "Suc attempt \<le> nat (maxR + 1)" by simp
    show ?thesis
    proof (cases "fetch attempt")
      case (Response status body)
      then show ?thesis using True b ih1[OF True refl Response] ih2[OF True refl Response]
        by (subst pushLoop.simps) (auto simp: Let_def)
    next
      case (Rejected message)
      then show ?thesis using True b ih3[OF True refl Rejected]
        by (subst pushLoop.simps) (auto simp: Let_def)
    next
      case (RejectedValue shown)
      then show ?thesis using True b ih4[OF True refl RejectedValue]
        by (subst pushLoop.simps) (auto simp: Let_def)
    qed
  qed
qed

text \<open>
  Claim C5, as the code has it. Let the attempts before attempt \<open>k\<close> all be retryable and
  \<open>k\<close> be at most the configured number of retries. If attempt \<open>k\<close> is answered with a
  2xx status, the run ends there with success; if it is answered with a 4xx status, the run
  ends there with that error and no further attempt. If every attempt up to the configured
  number is retryable, the run makes one attempt more than that number and throws the
  error of the last one. In each case the delays slept are
  \<open>min (1000 * 2 ^ (attempt - 1)) 30000\<close> for the attempts 1 to the last one made, in that
  order, and no run makes more attempts than the configured number plus one. Retryable are
  a 5xx response, a rejection with a non-error value, and a rejection with an error whose
  message does not start with \<^verbatim>\<open>HTTP 4\<close>.
\<close>

theorem pushWithRetry_policy:
  "(int k \<le> maxR \<and> (\<forall>i<k. retryable (fetch i)) \<and> fetch k = Response status body
      \<and> responseOk status
      \<longrightarrow> pushLoop maxR fetch 0 None []
           = \<lparr>thrown = None, sleeps = map backoffMs [1..<Suc k], fetches = Suc k\<rparr>)
   \<and> (int k \<le> maxR \<and> (\<forall>i<k. retryable (fetch i)) \<and> fetch k = Response status body
      \<and> 400 \<le> status \<and> status < 500
      \<longrightarrow> pushLoop maxR fetch 0 None []
           = \<lparr>thrown = Some (httpError status body), sleeps = map backoffMs [1..<Suc k],
               fetches = Suc k\<rparr>)
   \<and> (0 \<le> maxR \<and> (\<forall>i \<le> nat maxR. retryable (fetch i))
      \<longrightarrow> pushLoop maxR fetch 0 None []
           = \<lparr>thrown = Some (errorOf (fetch (nat maxR))),
               sleeps = map backoffMs [1..<Suc (nat maxR)], fetches = Suc (nat maxR)\<rparr>)
   \<and> fetches (pushLoop maxR fetch 0 None []) \<le> nat (maxR + 1)
   \<and> (500 \<le> status \<and> status < 600 \<longrightarrow> retryable (Response status body))
   \<and> retryable (Rejected message) = (\<not> startsWith message ''HTTP 4'')
   \<and> retryable (RejectedValue shown)
   \<and> backoffMs attempt = min (1000 * 2 ^ (attempt - 1)) 30000
   \<and> pushWithRetry cmp cfg fetchReq folded from until sampleRate type
       = pushLoop (maxRetries cfg)
           (fetchReq (pushRequest cmp cfg folded from until sampleRate type)) 0 None []"
proof -
  have a: "int k \<le> maxR \<and> (\<forall>i<k. retryable (fetch i)) \<and> fetch k = Response status body
      \<and> responseOk status
      \<longrightarrow> pushLoop maxR fetch 0 None []
           = \<lparr>thrown = None, sleeps = map backoffMs [1..<Suc k], fetches = Suc k\<rparr>"
  proof
    assume h: "int k \<le> maxR \<and> (\<forall>i<k. retryable (fetch i)) \<and> fetch k = Response status body
      \<and> responseOk status"
    then have "pushLoop maxR fetch 0 None []
     = pushLoop maxR fetch k (if k = 0 then None else Some (errorOf (fetch (k - 1))))
         (map backoffMs [1..<k])"
      by (intro pushLoop_retry_run) auto
    also have "\<dots> = \<lparr>thrown = None,
                     sleeps = map backoffMs [1..<k] @ (if 0 < k then [backoffMs k] else []),
                     fetches = Suc k\<rparr>"
      using h by (intro pushLoop_at_ok) auto
    finally show "pushLoop maxR fetch 0 None []
           = \<lparr>thrown = None, sleeps = map backoffMs [1..<Suc k], fetches = Suc k\<rparr>"
      by (simp only: backoff_snoc)
  qed
  have b: "int k \<le> maxR \<and> (\<forall>i<k. retryable (fetch i)) \<and> fetch k = Response status body
      \<and> 400 \<le> status \<and> status < 500
      \<longrightarrow> pushLoop maxR fetch 0 None []
           = \<lparr>thrown = Some (httpError status body), sleeps = map backoffMs [1..<Suc k],
               fetches = Suc k\<rparr>"
  proof
    assume h: "int k \<le> maxR \<and> (\<forall>i<k. retryable (fetch i)) \<and> fetch k = Response status body
      \<and> 400 \<le> status \<and> status < 500"
    then have "pushLoop maxR fetch 0 None []
     = pushLoop maxR fetch k (if k = 0 then None else Some (errorOf (fetch (k - 1))))
         (map backoffMs [1..<k])"
      by (intro pushLoop_retry_run) auto
    also have "\<dots> = \<lparr>thrown = Some (httpError status body),
                     sleeps = map backoffMs [1..<k] @ (if 0 < k then [backoffMs k] else []),
                     fetches = Suc k\<rparr>"
      using h by (intro pushLoop_at_4xx) auto
    finally show "pushLoop maxR fetch 0 None []
           = \<lparr>thrown = Some (httpError status body), sleeps = map backoffMs [1..<Suc k],
               fetches = Suc k\<rparr>"
      by (simp only: backoff_snoc)
  qed
  have c: "0 \<le> maxR \<and> (\<forall>i \<le> nat maxR. retryable (fetch i))
      \<longrightarrow> pushLoop maxR fetch 0 None []
           = \<lparr>thrown = Some (errorOf (fetch (nat maxR))),
               sleeps = map backoffMs [1..<Suc (nat maxR)], fetches = Suc (nat maxR)\<rparr>"
  proof
    assume h: "0 \<le> maxR \<and> (\<forall>i \<le> nat maxR. retryable (fetch i))"
    let ?k = "Suc (nat maxR)"
    have "pushLoop maxR fetch 0 None []
     = pushLoop maxR fetch ?k (if ?k = 0 then None else Some (errorOf (fetch (?k - 1))))
         (map backoffMs [1..<?k])"
      using h by (intro pushLoop_retry_run) auto
    also have "\<dots> = \<lparr>thrown = (if ?k = 0 then None else Some (errorOf (fetch (?k - 1)))),
                     sleeps = map backoffMs [1..<?k], fetches = ?k\<rparr>"
      using h by (intro pushLoop_at_end) auto
    finally show "pushLoop maxR fetch 0 None []
           = \<lparr>thrown = Some (errorOf (fetch (nat maxR))),
               sleeps = map backoffMs [1..<Suc (nat maxR)], fetches = Suc (nat maxR)\<rparr>"
      by simp
  qed
  have d: "fetches (pushLoop maxR fetch 0 None []) \<le> nat (maxR + 1)"
    using pushLoop_fetches_le[of maxR fetch 0 None "[]"] by simp
  have e: "500 \<le> status \<and> status < 600 \<longrightarrow> retryable (Response status body)"
    by (simp add: retryable_def responseOk_def)
  have f: "retryable (Rejected message) = (\<not> startsWith message ''HTTP 4'')"
    by (simp add: retryable_def)
  have g: "retryable (RejectedValue shown)"
    by (simp add: retryable_def)
  have i: "backoffMs attempt = min (1000 * 2 ^ (attempt - 1)) 30000"
    by (simp add: backoffMs_def)
  have j: "pushWithRetry cmp cfg fetchReq folded from until sampleRate type
       = pushLoop (maxRetries cfg)
           (fetchReq (pushRequest cmp cfg folded from until sampleRate type)) 0 None []"
    by (simp add: pushWithRetry_def)
  from a b c d e f g i j show ?thesis by blast
qed

text \<open>
  The instances of C5 at three servers under two retries: two 503 answers and then 200;
  404 at once; 503 at every attempt.
\<close>

theorem pushWithRetry_policy_witness:
  "retryable (busyThenOk 0) \<and> retryable (busyThenOk 1)
   \<and> busyThenOk 2 = Response 200 (Some ''ok'') \<and> responseOk 200
   \<and> pushLoop 2 busyThenOk 0 None [] = \<lparr>thrown = None, sleeps = [1000, 2000], fetches = 3\<rparr>
   \<and> notFound 0 = Response 404 None
   \<and> pushLoop 2 notFound 0 None []
       = \<lparr>thrown = Some ''HTTP 404: (unreadable)'', sleeps = [], fetches = 1\<rparr>
   \<and> retryable (alwaysBusy 0) \<and> retryable (alwaysBusy 1) \<and> retryable (alwaysBusy 2)
   \<and> pushLoop 2 alwaysBusy 0 None []
       = \<lparr>thrown = Some ''HTTP 503: busy'', sleeps = [1000, 2000], fetches = 3\<rparr>"
proof -
  have r: "retryable (busyThenOk 0)" "retryable (busyThenOk 1)"
    by (simp_all add: retryable_def busyThenOk_def responseOk_def)
  have o: "busyThenOk 2 = Response 200 (Some ''ok'')" "responseOk 200"
    by (simp_all add: busyThenOk_def responseOk_def)
  have rb: "\<forall>i<2. retryable (busyThenOk i)"
    by (simp add: retryable_def busyThenOk_def responseOk_def)
  have n: "notFound 0 = Response 404 None"
    by (simp add: notFound_def)
  have b: "retryable (alwaysBusy 0)" "retryable (alwaysBusy 1)" "retryable (alwaysBusy 2)"
    by (simp_all add: retryable_def alwaysBusy_def responseOk_def)
  have ab: "\<forall>i \<le> nat 2. retryable (alwaysBusy i)"
    by (simp add: retryable_def alwaysBusy_def responseOk_def)
  have sl: "map backoffMs [1..<Suc 2] = [1000, 2000]" "map backoffMs [1..<Suc 0] = []"
    by (simp_all add: backoffMs_def upt_conv_Cons)
  have e4: "httpError 404 None = ''HTTP 404: (unreadable)''"
    by (simp add: httpError_def showNat_4xx digitChar_def)
  have e5: "errorOf (alwaysBusy (nat 2)) = ''HTTP 503: busy''"
    unfolding alwaysBusy_def by code_simp
  have "pushLoop 2 busyThenOk 0 None []
          = \<lparr>thrown = None, sleeps = map backoffMs [1..<Suc 2], fetches = Suc 2\<rparr>"
    using pushWithRetry_policy [of 2 2 busyThenOk 200 "Some ''ok''", THEN conjunct1] rb o
    by simp
  moreover have "pushLoop 2 notFound 0 None []
          = \<lparr>thrown = Some (httpError 404 None), sleeps = map backoffMs [1..<Suc 0],
              fetches = Suc 0\<rparr>"
    using pushWithRetry_policy [of 0 2 notFound 404 None, THEN conjunct2, THEN conjunct1] n
    by simp
  moreover have "pushLoop 2 alwaysBusy 0 None []
          = \<lparr>thrown = Some (errorOf (alwaysBusy (nat 2))),
              sleeps = map backoffMs [1..<Suc (nat 2)], fetches = Suc (nat 2)\<rparr>"
    using pushWithRetry_policy [of _ 2 alwaysBusy, THEN conjunct2, THEN conjunct2, THEN conjunct1] ab
    by simp
  ultimately show ?thesis
    using r o n b sl e4 e5 by simp
qed

text \<open>
  Claim C5 as stated has every transport-level error retried. A rejection with an error
  whose message starts with \<^verbatim>\<open>HTTP 4\<close> is rethrown by the \<^verbatim>\<open>catch\<close> at once: under two
  retries the run makes one attempt and sleeps never.
\<close>

theorem pushWithRetry_transport_counterexample:
  "pushLoop 2 proxyRefusal 0 None []
     = \<lparr>thrown = Some ''HTTP 407 from proxy'', sleeps = [], fetches = 1\<rparr>"
  by (subst pushLoop.simps) (simp add: proxyRefusal_def startsWith_def)

section \<open>Properties of the profiler\<close>

subsection \<open>What the steps leave unchanged\<close>

lemma running_emit [simp]: "running (emit e p) = running p"
  by (simp add: emit_def)

lemma running_logMsg [simp]: "running (logMsg level msg p) = running p"
  by (simp add: logMsg_def)

lemma running_post [simp]: "running (fst (post env method param p)) = running p"
  by (simp add: post_def)

lemma running_clearPushTimer [simp]: "running (clearPushTimer p) = running p"
  by (simp add: clearPushTimer_def split: option.splits)

lemma running_installSignalHandlers [simp]: "running (installSignalHandlers p) = running p"
  by (simp add: installSignalHandlers_def)

lemma running_scheduleNextWindow [simp]: "running (scheduleNextWindow p) = running p"
  by (simp add: scheduleNextWindow_def)

lemma running_beginWindow [simp]: "running (beginWindow env schedule p) = running p"
  by (simp add: beginWindow_def post_def Let_def)

lemma running_flushHeapWindow [simp]: "running (flushHeapWindow env a b p) = running p"
  by (simp add: flushHeapWindow_def)

lemma running_endWindowAndPush [simp]: "running (endWindowAndPush env p) = running p"
  by (simp add: endWindowAndPush_def post_def Let_def)

lemma config_emit [simp]: "config (emit e p) = config p"
  by (simp add: emit_def)

lemma config_logMsg [simp]: "config (logMsg level msg p) = config p"
  by (simp add: logMsg_def)

lemma config_clearPushTimer [simp]: "config (clearPushTimer p) = config p"
  by (simp add: clearPushTimer_def split: option.splits)

lemma config_scheduleNextWindow [simp]: "config (scheduleNextWindow p) = config p"
  by (simp add: scheduleNextWindow_def)

lemma config_beginWindow [simp]: "config (beginWindow env schedule p) = config p"
  by (simp add: beginWindow_def post_def Let_def)

lemma config_flushHeapWindow [simp]: "config (flushHeapWindow env a b p) = config p"
  by (simp add: flushHeapWindow_def)

lemma config_endWindowAndPush [simp]: "config (endWindowAndPush env p) = config p"
  by (simp add: endWindowAndPush_def post_def Let_def)

subsection \<open>Start and stop\<close>

lemma start_when_running:
  "running p \<Longrightarrow>
   start env p = (logMsg Warn ''start() called but profiler is already running'' p, None)"
  by (simp add: start_def)

lemma start_ok_running: "snd (start env p) = None \<Longrightarrow> running (fst (start env p))"
  by (auto simp: start_def post_def Let_def split: if_splits prod.splits)

lemma stop_when_stopped: "\<not> running p \<Longrightarrow> stop env p = p"
  by (simp add: stop_def)

lemma stop_not_running: "\<not> running (stop env p)"
  by (simp add: stop_def Let_def split: option.splits)

lemma running_profiler:
  "runningProfiler =
     \<lparr>config = testConfig, session = Some Session, pushTimer = Some 0, running = True,
      windowStart = 4, signalHandlersInstalled = True,
      trace = [Connect, Post ''Profiler.enable'' None,
               Post ''Profiler.setSamplingInterval'' (Some 10000),
               InstallSignalHandlers, Post ''Profiler.start'' None, SetTimeout 0 60000],
      nextTimer = 1, pendingHeap = []\<rparr>"
  unfolding runningProfiler_def testConfig_def
  by code_simp

lemma running_heap_profiler:
  "runningHeapProfiler =
     \<lparr>config = heapConfig, session = Some Session, pushTimer = Some 0, running = True,
      windowStart = 6, signalHandlersInstalled = True,
      trace = [Connect, Post ''Profiler.enable'' None,
               Post ''Profiler.setSamplingInterval'' (Some 10000),
               Post ''HeapProfiler.enable'' None,
               Post ''HeapProfiler.startSampling'' (Some 32768),
               InstallSignalHandlers, Post ''Profiler.start'' None, SetTimeout 0 60000],
      nextTimer = 1, pendingHeap = []\<rparr>"
  unfolding runningHeapProfiler_def heapConfig_def
  by code_simp

text \<open>
  Claim C9. On a running profiler \<^verbatim>\<open>start\<close> returns without an error and changes nothing
  but the log: the trace gains one warning, hence no connect and no post, and every field
  of the profiler is as before. A \<^verbatim>\<open>start\<close> that returns without an error leaves the
  profiler running, so this is what a second \<^verbatim>\<open>start\<close> in a row meets. On a profiler that
  is not running \<^verbatim>\<open>stop\<close> changes nothing at all; \<^verbatim>\<open>stop\<close> always leaves the profiler
  not running, so a second \<^verbatim>\<open>stop\<close> in a row has no effect: no disconnect and no flush.
\<close>

theorem start_stop_idempotent:
  "(running p \<longrightarrow>
      start env p = (logMsg Warn ''start() called but profiler is already running'' p, None)
      \<and> (fst (start env p))\<lparr>trace := trace p\<rparr> = p
      \<and> trace (fst (start env p))
          = trace p @ [Log Warn ''start() called but profiler is already running''])
   \<and> (snd (start env p) = None \<longrightarrow> running (fst (start env p)))
   \<and> (\<not> running p \<longrightarrow> stop env p = p)
   \<and> \<not> running (stop env p)
   \<and> stop env (stop env p) = stop env p"
proof -
  have a: "running p \<longrightarrow>
      start env p = (logMsg Warn ''start() called but profiler is already running'' p, None)
      \<and> (fst (start env p))\<lparr>trace := trace p\<rparr> = p
      \<and> trace (fst (start env p))
          = trace p @ [Log Warn ''start() called but profiler is already running'']"
    by (simp add: start_when_running logMsg_def emit_def)
  have b: "snd (start env p) = None \<longrightarrow> running (fst (start env p))"
    using start_ok_running by blast
  have c: "\<not> running p \<longrightarrow> stop env p = p"
    using stop_when_stopped by blast
  have d: "\<not> running (stop env p)"
    by (rule stop_not_running)
  have e: "stop env (stop env p) = stop env p"
    using d by (rule stop_when_stopped)
  from a b c d e show ?thesis by blast
qed

text \<open>
  The instances of C9 at the profiler of the tests: a second \<^verbatim>\<open>start\<close> adds the warning
  to the six effects of the first, and \<^verbatim>\<open>stop\<close> on the new or the stopped profiler adds
  nothing.
\<close>

theorem start_stop_idempotent_witness:
  "running runningProfiler
   \<and> trace (fst (start testEnv runningProfiler))
       = [Connect, Post ''Profiler.enable'' None,
          Post ''Profiler.setSamplingInterval'' (Some 10000),
          InstallSignalHandlers, Post ''Profiler.start'' None, SetTimeout 0 60000,
          Log Warn ''start() called but profiler is already running'']
   \<and> snd (start testEnv (newProfiler testConfig)) = None
   \<and> \<not> running (newProfiler testConfig)
   \<and> stop testEnv (newProfiler testConfig) = newProfiler testConfig
   \<and> trace (stop testEnv (stop testEnv runningProfiler)) = trace (stop testEnv runningProfiler)"
proof -
  have r: "running runningProfiler"
    by (simp add: running_profiler)
  have n: "\<not> running (newProfiler testConfig)"
    by (simp add: newProfiler_def)
  have s: "snd (start testEnv (newProfiler testConfig)) = None"
    unfolding testConfig_def by code_simp
  have "trace (fst (start testEnv runningProfiler))
          = trace runningProfiler @ [Log Warn ''start() called but profiler is already running'']"
    using start_stop_idempotent [of runningProfiler testEnv] r by blast
  moreover have "stop testEnv (newProfiler testConfig) = newProfiler testConfig"
    using start_stop_idempotent [of "newProfiler testConfig" testEnv] n by blast
  moreover have "stop testEnv (stop testEnv runningProfiler) = stop testEnv runningProfiler"
    using start_stop_idempotent [of runningProfiler testEnv] by blast
  ultimately show ?thesis
    using r n s by (simp add: running_profiler)
qed

subsection \<open>Closing a window in the surroundings of the tests\<close>

lemma testEnv_fields:
  "postOk testEnv n method = True"
  "cpuProfileAt testEnv n = mainProfile"
  "nowSeconds testEnv n = int n"
  "localeCompare testEnv = codeUnitCompare"
  by (simp_all add: testEnv_def)

lemma calculateSampleRate_mainProfile: "calculateSampleRate mainProfile = 2"
  by (simp add: calculateSampleRate_def mainProfile_def numSub_from_zero
        rate_two_per_second mathRound_def)

lemma convertToFolded_mainProfile: "convertToFolded mainProfile = ''main (app.ts:1) 2''"
  by code_simp

text \<open>
  There the stop of the profiler resolves with the profile of two samples over one second,
  so the window is pushed with the rate 2.
\<close>

lemma endWindowAndPush_testEnv:
  "endWindowAndPush testEnv p =
     (if session p = None then p
      else
        let windowEnd = int (length (trace p));
            p1 = emit (Post ''Profiler.stop'' None) p;
            p2 = emit (Push (pushRequest codeUnitCompare (config p1) ''main (app.ts:1) 2''
                               (windowStart p1) windowEnd 2 ''cpu'')) p1
        in if heapEnabled (config p2)
           then flushHeapWindow testEnv (windowStart p2) windowEnd p2
           else p2)"
  by (simp add: endWindowAndPush_def post_def testEnv_fields Let_def
        convertToFolded_mainProfile calculateSampleRate_mainProfile)

subsection \<open>The name of a heap push\<close>

text \<open>
  Claim C2 on the code. The stream type handed to \<^verbatim>\<open>buildIngestUrl\<close> does not reach the
  name: the names for \<^verbatim>\<open>alloc_space\<close> and for \<^verbatim>\<open>cpu\<close> are equal, and every name starts
  with the application name followed by \<^verbatim>\<open>.cpu\<close>. In the run of the test that expects an
  \<^verbatim>\<open>alloc_space\<close> stream (start with heap sampling, stop, the heap flush resumed) the
  heap push has the sample rate 1 and the same name as the CPU push.
\<close>

theorem heap_push_named_cpu:
  "qName (buildIngestUrl cmp cfg from until sampleRate ''alloc_space'')
     = qName (buildIngestUrl cmp cfg from until sampleRate ''cpu'')
   \<and> take (length (appName cfg) + 4) (qName (buildIngestUrl cmp cfg from until sampleRate type))
       = appName cfg @ ''.cpu''
   \<and> pendingHeap (stop testEnv runningHeapProfiler) = [finalHeapJob]
   \<and> map pushSummary
        (pushesOf (trace (resumeHeapFlush testEnv finalHeapJob (stop testEnv runningHeapProfiler))))
       = [(''test-app.cpu{hostname=web-1,service_name=test-app}'', 6, 9, 2, ''main (app.ts:1) 2''),
          (''test-app.cpu{hostname=web-1,service_name=test-app}'', 6, 9, 1,
           ''allocHeavy (alloc.ts:5) 1024'')]"
proof -
  have a: "qName (buildIngestUrl cmp cfg from until sampleRate ''alloc_space'')
     = qName (buildIngestUrl cmp cfg from until sampleRate ''cpu'')"
    by (simp add: buildIngestUrl_def)
  have b: "take (length (appName cfg) + 4) (qName (buildIngestUrl cmp cfg from until sampleRate type))
       = appName cfg @ ''.cpu''"
    by (simp add: buildIngestUrl_def encodePyroscopeName_def Let_def)
  have c: "pendingHeap (stop testEnv runningHeapProfiler) = [finalHeapJob]"
    unfolding stop_def endWindowAndPush_testEnv
      running_heap_profiler heapConfig_def testConfig_def finalHeapJob_def
    by code_simp
  have d: "map pushSummary
        (pushesOf (trace (resumeHeapFlush testEnv finalHeapJob (stop testEnv runningHeapProfiler))))
       = [(''test-app.cpu{hostname=web-1,service_name=test-app}'', 6, 9, 2, ''main (app.ts:1) 2''),
          (''test-app.cpu{hostname=web-1,service_name=test-app}'', 6, 9, 1,
           ''allocHeavy (alloc.ts:5) 1024'')]"
    unfolding stop_def endWindowAndPush_testEnv
      running_heap_profiler heapConfig_def testConfig_def finalHeapJob_def
    by code_simp
  from a b c d show ?thesis by blast
qed

subsection \<open>Tagging\<close>

text \<open>
  Outside a session \<^verbatim>\<open>tag\<close> is the function itself. Inside one it returns with the
  labels it found, whatever the function did, and with the function's own value or
  exception.
\<close>

lemma tag_outside_session:
  "\<not> running p \<or> session p = None \<Longrightarrow> tag env extraLabels fn p = fn p"
  by (auto simp: tag_def)

lemma tag_labels_restored:
  "running p \<Longrightarrow> session p \<noteq> None \<Longrightarrow>
   labels (config (fst (tag env extraLabels fn p))) = labels (config p)"
  by (auto simp: tag_def Let_def split: prod.splits)

lemma tag_result:
  "running p \<Longrightarrow> session p \<noteq> None \<Longrightarrow>
   snd (tag env extraLabels fn p)
     = snd (fn (beginWindow env False
                 ((endWindowAndPush env (clearPushTimer p))
                    \<lparr>config := (config p)\<lparr>labels := spreadLabels (labels (config p)) extraLabels\<rparr>\<rparr>)))"
  by (auto simp: tag_def Let_def split: prod.splits)

text \<open>
  The effects of a step stay in the trace. A timer the function leaves pending is cancelled,
  and when the session is still there and the profile has samples, the window the function
  ran in is pushed under the configuration the function left: the overlaid labels, when the
  function did not touch them.
\<close>

lemma trace_emit [simp]: "trace (emit e p) = trace p @ [e]"
  by (simp add: emit_def)

lemma trace_logMsg_grows: "set (trace p) \<subseteq> set (trace (logMsg level msg p))"
  by (auto simp: logMsg_def)

lemma trace_scheduleNextWindow_grows: "set (trace p) \<subseteq> set (trace (scheduleNextWindow p))"
  by (auto simp: scheduleNextWindow_def)

lemma trace_beginWindow_grows: "set (trace p) \<subseteq> set (trace (beginWindow env schedule p))"
  using trace_logMsg_grows trace_scheduleNextWindow_grows
  by (auto simp: beginWindow_def post_def Let_def logMsg_def scheduleNextWindow_def)

lemma trace_flushHeapWindow_grows: "set (trace p) \<subseteq> set (trace (flushHeapWindow env a b p))"
  by (auto simp: flushHeapWindow_def)

lemma trace_endWindowAndPush_grows: "set (trace p) \<subseteq> set (trace (endWindowAndPush env p))"
  by (auto simp: endWindowAndPush_def post_def Let_def logMsg_def flushHeapWindow_def)

lemma clearPushTimer_cancels:
  "pushTimer p = Some h \<Longrightarrow> ClearTimeout h \<in> set (trace (clearPushTimer p))"
  by (simp add: clearPushTimer_def)

lemma clearPushTimer_keeps:
  "config (clearPushTimer p) = config p" "session (clearPushTimer p) = session p"
  "windowStart (clearPushTimer p) = windowStart p"
  by (simp_all add: clearPushTimer_def emit_def split: option.splits)

lemma tag_cancels_timer:
  assumes "running p" "session p \<noteq> None"
    and "fn (beginWindow env False
              ((endWindowAndPush env (clearPushTimer p))
                 \<lparr>config := (config p)\<lparr>labels := spreadLabels (labels (config p)) extraLabels\<rparr>\<rparr>))
           = (p5, result)"
    and "pushTimer p5 = Some h"
  shows "ClearTimeout h \<in> set (trace (fst (tag env extraLabels fn p)))"
proof -
  let ?p6 = "clearPushTimer p5"
  let ?p7 = "endWindowAndPush env ?p6"
  let ?p8 = "?p7\<lparr>config := (config ?p7)\<lparr>labels := labels (config p)\<rparr>\<rparr>"
  have t: "fst (tag env extraLabels fn p)
             = (if running ?p8 then beginWindow env True ?p8 else ?p8)"
    using assms(1,2,3) by (auto simp: tag_def Let_def)
  have "ClearTimeout h \<in> set (trace ?p6)"
    using assms(4) by (rule clearPushTimer_cancels)
  then have "ClearTimeout h \<in> set (trace ?p7)"
    using trace_endWindowAndPush_grows by blast
  then have c8: "ClearTimeout h \<in> set (trace ?p8)"
    by simp
  have "set (trace ?p8) \<subseteq> set (trace (beginWindow env True ?p8))"
    by (rule trace_beginWindow_grows)
  then have c9: "ClearTimeout h \<in> set (trace (beginWindow env True ?p8))"
    using c8 by blast
  have "ClearTimeout h \<in> set (trace (if running ?p8 then beginWindow env True ?p8 else ?p8))"
  proof (cases "running ?p8")
    case True
    then show ?thesis using c9 by (simp only: if_True)
  next
    case False
    then show ?thesis using c8 by (simp only: if_False)
  qed
  then show ?thesis by (simp only: t)
qed

lemma endWindowAndPush_pushes:
  assumes "session p \<noteq> None"
    and "postOk env (length (trace p)) ''Profiler.stop''"
    and "convertToFolded (cpuProfileAt env (length (trace p))) \<noteq> []"
  shows "Push (pushRequest (localeCompare env) (config p)
                 (convertToFolded (cpuProfileAt env (length (trace p))))
                 (windowStart p) (nowSeconds env (length (trace p)))
                 (calculateSampleRate (cpuProfileAt env (length (trace p)))) ''cpu'')
           \<in> set (trace (endWindowAndPush env p))"
  using assms
  by (auto simp: endWindowAndPush_def post_def Let_def flushHeapWindow_def emit_def)

lemma tag_flushes_tagged_window:
  assumes "running p" "session p \<noteq> None"
    and "fn (beginWindow env False
              ((endWindowAndPush env (clearPushTimer p))
                 \<lparr>config := (config p)\<lparr>labels := spreadLabels (labels (config p)) extraLabels\<rparr>\<rparr>))
           = (p5, result)"
    and "session p5 \<noteq> None"
    and "postOk env (length (trace (clearPushTimer p5))) ''Profiler.stop''"
    and "convertToFolded (cpuProfileAt env (length (trace (clearPushTimer p5)))) \<noteq> []"
  shows "Push (pushRequest (localeCompare env) (config p5)
                 (convertToFolded (cpuProfileAt env (length (trace (clearPushTimer p5)))))
                 (windowStart p5) (nowSeconds env (length (trace (clearPushTimer p5))))
                 (calculateSampleRate (cpuProfileAt env (length (trace (clearPushTimer p5)))))
                 ''cpu'')
           \<in> set (trace (fst (tag env extraLabels fn p)))"
proof -
  let ?p6 = "clearPushTimer p5"
  let ?p7 = "endWindowAndPush env ?p6"
  let ?p8 = "?p7\<lparr>config := (config ?p7)\<lparr>labels := labels (config p)\<rparr>\<rparr>"
  let ?push = "Push (pushRequest (localeCompare env) (config p5)
                 (convertToFolded (cpuProfileAt env (length (trace ?p6))))
                 (windowStart p5) (nowSeconds env (length (trace ?p6)))
                 (calculateSampleRate (cpuProfileAt env (length (trace ?p6)))) ''cpu'')"
  have t: "fst (tag env extraLabels fn p)
             = (if running ?p8 then beginWindow env True ?p8 else ?p8)"
    using assms(1,2,3) by (auto simp: tag_def Let_def)
  have s6: "session ?p6 \<noteq> None"
    using assms(4) by (simp add: clearPushTimer_keeps)
  have "Push (pushRequest (localeCompare env) (config ?p6)
                 (convertToFolded (cpuProfileAt env (length (trace ?p6))))
                 (windowStart ?p6) (nowSeconds env (length (trace ?p6)))
                 (calculateSampleRate (cpuProfileAt env (length (trace ?p6)))) ''cpu'')
           \<in> set (trace ?p7)"
    using s6 assms(5,6) by (rule endWindowAndPush_pushes)
  then have "?push \<in> set (trace ?p7)"
    by (simp only: clearPushTimer_keeps)
  then have c8: "?push \<in> set (trace ?p8)"
    by simp
  have "set (trace ?p8) \<subseteq> set (trace (beginWindow env True ?p8))"
    by (rule trace_beginWindow_grows)
  then have c9: "?push \<in> set (trace (beginWindow env True ?p8))"
    using c8 by blast
  have "?push \<in> set (trace (if running ?p8 then beginWindow env True ?p8 else ?p8))"
  proof (cases "running ?p8")
    case True
    then show ?thesis using c9 by (simp only: if_True)
  next
    case False
    then show ?thesis using c8 by (simp only: if_False)
  qed
  then show ?thesis by (simp only: t)
qed

text \<open>
  With heap sampling on, the heap flush of that window is suspended when \<^verbatim>\<open>tag\<close>
  returns; its push, whenever it is resumed, takes the configuration of that moment.
\<close>

lemma heapConvertAndPush_uses_current_config:
  "convertHeapToFolded heapProfile \<noteq> [] \<Longrightarrow>
   trace (heapConvertAndPush env job heapProfile p)
     = trace p @ [Push (pushRequest (localeCompare env) (config p)
                          (convertHeapToFolded heapProfile)
                          (jobWindowStart job) (jobWindowEnd job) 1 ''alloc_space'')]"
  by (simp add: heapConvertAndPush_def Let_def)

lemma pendingHeap_beginWindow [simp]:
  "pendingHeap (beginWindow env schedule p) = pendingHeap p"
  by (simp add: beginWindow_def post_def Let_def logMsg_def scheduleNextWindow_def emit_def)

lemma endWindowAndPush_suspends_heap_flush:
  assumes "session p \<noteq> None"
    and "postOk env (length (trace p)) ''Profiler.stop''"
    and "heapEnabled (config p)"
  shows "\<exists>n. pendingHeap (endWindowAndPush env p)
               = pendingHeap p
                 @ [\<lparr>jobWindowStart = windowStart p,
                      jobWindowEnd = nowSeconds env (length (trace p)),
                      jobStage = AwaitingStop n\<rparr>]"
  using assms
  by (auto simp: endWindowAndPush_def post_def Let_def flushHeapWindow_def emit_def logMsg_def)

lemma tag_leaves_heap_flush_suspended:
  assumes "running p" "session p \<noteq> None"
    and "fn (beginWindow env False
              ((endWindowAndPush env (clearPushTimer p))
                 \<lparr>config := (config p)\<lparr>labels := spreadLabels (labels (config p)) extraLabels\<rparr>\<rparr>))
           = (p5, result)"
    and "session p5 \<noteq> None"
    and "postOk env (length (trace (clearPushTimer p5))) ''Profiler.stop''"
    and "heapEnabled (config p5)"
  shows "\<exists>n. last (pendingHeap (fst (tag env extraLabels fn p)))
               = \<lparr>jobWindowStart = windowStart p5,
                  jobWindowEnd = nowSeconds env (length (trace (clearPushTimer p5))),
                  jobStage = AwaitingStop n\<rparr>"
proof -
  let ?p6 = "clearPushTimer p5"
  let ?p7 = "endWindowAndPush env ?p6"
  let ?p8 = "?p7\<lparr>config := (config ?p7)\<lparr>labels := labels (config p)\<rparr>\<rparr>"
  have t: "fst (tag env extraLabels fn p)
             = (if running ?p8 then beginWindow env True ?p8 else ?p8)"
    using assms(1,2,3) by (auto simp: tag_def Let_def)
  have s6: "session ?p6 \<noteq> None"
    using assms(4) by (simp add: clearPushTimer_keeps)
  have h6: "heapEnabled (config ?p6)"
    using assms(6) by (simp add: clearPushTimer_keeps)
  obtain n where "pendingHeap ?p7
               = pendingHeap ?p6
                 @ [\<lparr>jobWindowStart = windowStart ?p6,
                      jobWindowEnd = nowSeconds env (length (trace ?p6)),
                      jobStage = AwaitingStop n\<rparr>]"
    using endWindowAndPush_suspends_heap_flush [OF s6 assms(5) h6] by blast
  then have "last (pendingHeap ?p7)
               = \<lparr>jobWindowStart = windowStart p5,
                  jobWindowEnd = nowSeconds env (length (trace ?p6)),
                  jobStage = AwaitingStop n\<rparr>"
    by (simp add: clearPushTimer_keeps)
  moreover have "pendingHeap (fst (tag env extraLabels fn p)) = pendingHeap ?p7"
    by (simp add: t)
  ultimately show ?thesis by auto
qed

text \<open>
  Claim C6 on the code, at \<^verbatim>\<open>tag({ route: "api" }, () => "ok")\<close> with heap sampling on.
  The value is returned and the labels are restored. The CPU push of the tagged window
  (seconds 12 to 13) carries \<^verbatim>\<open>route=api\<close>. The heap flush of the same window is still
  suspended when \<^verbatim>\<open>tag\<close> returns: \<^verbatim>\<open>endWindowAndPush\<close> does not await it, two
  \<^verbatim>\<open>await\<close>s lie between its start and its push, and \<^verbatim>\<open>tag\<close> restores the labels in
  the step right after \<^verbatim>\<open>endWindowAndPush\<close>. When the flush is resumed, its push for the
  seconds 12 to 13 is built from the restored labels and lacks \<^verbatim>\<open>route=api\<close>.
\<close>

theorem tag_heap_push_after_restore:
  "snd taggedRun = Returned ''ok''
   \<and> labels (config (fst taggedRun)) = labels heapConfig
   \<and> pendingHeap (fst taggedRun) = [preTagHeapJob, taggedHeapJob]
   \<and> map pushSummary (pushesOf (trace (fst taggedRun)))
       = [(''test-app.cpu{hostname=web-1,service_name=test-app}'', 6, 9, 2, ''main (app.ts:1) 2''),
          (''test-app.cpu{hostname=web-1,route=api,service_name=test-app}'', 12, 13, 2,
           ''main (app.ts:1) 2'')]
   \<and> pendingHeap (resumeHeapFlush testEnv taggedHeapJob (fst taggedRun))
       = [preTagHeapJob, taggedHeapJobRestarted]
   \<and> map pushSummary
        (pushesOf (trace (resumeHeapFlush testEnv taggedHeapJobRestarted
                            (resumeHeapFlush testEnv taggedHeapJob (fst taggedRun)))))
       = [(''test-app.cpu{hostname=web-1,service_name=test-app}'', 6, 9, 2, ''main (app.ts:1) 2''),
          (''test-app.cpu{hostname=web-1,route=api,service_name=test-app}'', 12, 13, 2,
           ''main (app.ts:1) 2''),
          (''test-app.cpu{hostname=web-1,service_name=test-app}'', 12, 13, 1,
           ''allocHeavy (alloc.ts:5) 1024'')]"
proof -
  have a: "snd taggedRun = Returned ''ok''"
    unfolding taggedRun_def tag_def endWindowAndPush_testEnv
      running_heap_profiler heapConfig_def testConfig_def
    by code_simp
  have b: "labels (config (fst taggedRun)) = labels heapConfig"
    unfolding taggedRun_def tag_def endWindowAndPush_testEnv
      running_heap_profiler heapConfig_def testConfig_def
    by code_simp
  have c: "pendingHeap (fst taggedRun) = [preTagHeapJob, taggedHeapJob]"
    unfolding taggedRun_def tag_def endWindowAndPush_testEnv
      running_heap_profiler heapConfig_def testConfig_def
      preTagHeapJob_def taggedHeapJob_def
    by code_simp
  have d: "map pushSummary (pushesOf (trace (fst taggedRun)))
       = [(''test-app.cpu{hostname=web-1,service_name=test-app}'', 6, 9, 2, ''main (app.ts:1) 2''),
          (''test-app.cpu{hostname=web-1,route=api,service_name=test-app}'', 12, 13, 2,
           ''main (app.ts:1) 2'')]"
    unfolding taggedRun_def tag_def endWindowAndPush_testEnv
      running_heap_profiler heapConfig_def testConfig_def
    by code_simp
  have e: "pendingHeap (resumeHeapFlush testEnv taggedHeapJob (fst taggedRun))
       = [preTagHeapJob, taggedHeapJobRestarted]"
    unfolding taggedRun_def tag_def endWindowAndPush_testEnv
      running_heap_profiler heapConfig_def testConfig_def
      preTagHeapJob_def taggedHeapJob_def taggedHeapJobRestarted_def
    by code_simp
  have f: "map pushSummary
        (pushesOf (trace (resumeHeapFlush testEnv taggedHeapJobRestarted
                            (resumeHeapFlush testEnv taggedHeapJob (fst taggedRun)))))
       = [(''test-app.cpu{hostname=web-1,service_name=test-app}'', 6, 9, 2, ''main (app.ts:1) 2''),
          (''test-app.cpu{hostname=web-1,route=api,service_name=test-app}'', 12, 13, 2,
           ''main (app.ts:1) 2''),
          (''test-app.cpu{hostname=web-1,service_name=test-app}'', 12, 13, 1,
           ''allocHeavy (alloc.ts:5) 1024'')]"
    unfolding taggedRun_def tag_def endWindowAndPush_testEnv
      running_heap_profiler heapConfig_def testConfig_def
      taggedHeapJob_def taggedHeapJobRestarted_def
    by code_simp
  from a b c d e f show ?thesis by blast
qed

end
